theory Spec2Isabelle
  imports Main "HOL-Library.AList" "HOL-Library.Word"
begin

section \<open>Data model of the emulation session\<close>

text \<open>
  The embedding follows \<^verbatim>\<open>cemu/emulator.py\<close> (class \<^verbatim>\<open>Emulator\<close>, class
  \<^verbatim>\<open>EmulationRegisters\<close>) and \<^verbatim>\<open>cemu/ui/main.py\<close> (class \<^verbatim>\<open>EmulationRunner\<close>).
  Python methods mutate the session object and may raise; here every method takes the
  session record and returns a pair of a result (\<open>Inl\<close> the raised exception, \<open>Inr\<close> the
  returned value) and the session as the method left it, so that a mutation made before
  a raise is still visible afterwards, as in Python.
\<close>

type_synonym byte = "8 word"

datatype EmulatorState =
  INVALID | STARTING | NOT_RUNNING | IDLE | RUNNING | TEARDOWN | FINISHED

datatype Permission = READ | WRITE | EXEC

text \<open>
  Modelled from the spec: the class \<^verbatim>\<open>MemorySection\<close> of \<^verbatim>\<open>cemu/memory.py\<close> and the class
  \<^verbatim>\<open>Instruction\<close> of \<^verbatim>\<open>cemu/arch\<close>, which are not among the sources. The spec gives a
  section a name, an address, a size, a set of permission flags and an optional initial
  content; the two files read \<^verbatim>\<open>name\<close>, \<^verbatim>\<open>address\<close>, \<^verbatim>\<open>size\<close>, \<^verbatim>\<open>permission\<close> and
  \<^verbatim>\<open>content\<close> of a section, and \<^verbatim>\<open>bytes\<close> and \<^verbatim>\<open>end\<close> of an instruction.
\<close>

record MemorySection =
  sec_name :: string
  sec_address :: int
  sec_size :: int
  sec_permission :: "Permission list"
  sec_content :: "byte list option"

record Instruction =
  insn_address :: int
  insn_bytes :: "byte list"
  insn_end :: int

text \<open>The exceptions the two files raise or let through.\<close>

datatype exc =
  RuntimeError string
  | Exception string
  | KeyError string
  | ValueError string
  | AssertionError string
  | AttributeError string
  | CemuEmulatorMissingRequiredSection string
  | UcError nat

datatype hook =
  UC_HOOK_BLOCK | UC_HOOK_CODE | UC_HOOK_INTR | UC_HOOK_MEM_WRITE | UC_HOOK_MEM_READ
  | UC_HOOK_INSN

datatype SegmentType = Code | Data | Accessed | ExpandDown

text \<open>
  The two popups of the source: \<^verbatim>\<open>popup(str(e), PopupType.Error, "Emulator setup error")\<close>
  in \<^verbatim>\<open>Emulator.set\<close> and
  \<^verbatim>\<open>popup(f"An error occured: {str(e)} at pc={emu.pc():#x}, sp={emu.sp():#x}")\<close> in
  \<^verbatim>\<open>EmulationRunner.run\<close>, with the values they format.
\<close>

datatype popup_message =
  EmulatorSetupError exc
  | RunError exc int int

text \<open>
  What the session does to the outside is recorded in a trace, in the order it
  happens: every call on the engine handle \<^verbatim>\<open>self.vm\<close>, every popup and every
  observer callback invoked. A callback is an opaque callable; it is identified by a
  number and its invocation is an event (the callbacks \<^verbatim>\<open>main.py\<close> registers only update
  the status bar).
\<close>

datatype event =
  EvHookAdd hook
  | EvMemMap int int "Permission list"
  | EvMemWrite int "byte list"
  | EvMemRead int int
  | EvMemUnmap int int
  | EvRegRead string
  | EvRegWrite string int
  | EvEmuStart int int
  | EvPopup popup_message
  | EvCallback nat

text \<open>The events that map memory, which claim C9 counts.\<close>

fun is_mem_map :: "event \<Rightarrow> bool" where
  "is_mem_map (EvMemMap a s p) = True"
| "is_mem_map e = False"

datatype runner = EmulationRunner

text \<open>
  The \<^verbatim>\<open>Emulator\<close> object. \<open>registers\<close> is the \<^verbatim>\<open>data\<close> dictionary of
  \<^verbatim>\<open>EmulationRegisters\<close>, an association list in insertion order (the source iterates
  over it). \<open>end_addr\<close> is \<open>None\<close> until \<^verbatim>\<open>__populate_memory\<close> creates the attribute.
  \<open>state_change_callbacks\<close> is a dictionary with no entry for \<open>INVALID\<close>.
  \<open>vm\<close> is the engine handle, of a type \<open>'vm\<close> that the engine (a parameter) fixes.
\<close>

record 'vm Emulator =
  use_step_mode :: bool
  state :: EmulatorState
  state_change_callbacks :: "EmulatorState \<rightharpoonup> nat list"
  threaded_runner :: "runner option"
  vm :: "'vm option"
  code :: "byte list"
  codelines :: string
  sections :: "MemorySection list"
  registers :: "(string \<times> int) list"
  start_addr :: int
  end_addr :: "int option"
  trace :: "event list"

text \<open>
  \<^verbatim>\<open>cemu.core.context\<close>: the architecture backend and the embedded engine library
  (unicorn) are not part of the two files; they are parameters. A mutating engine call
  returns the engine as changed, or the \<^verbatim>\<open>UcError\<close> it raised (the engine is then as
  before); \<^verbatim>\<open>emu_start\<close> changes the engine also when it raises. The engine calls take
  the register name: \<^verbatim>\<open>arch.uc_register\<close> is part of them. \<open>arch_uc\<close> is the engine
  instance the property \<^verbatim>\<open>arch.uc\<close> creates.
\<close>

record 'vm GlobalContext =
  arch_registers :: "string list"
  arch_pc :: string
  arch_sp :: string
  is_x86 :: bool
  is_x86_32 :: bool
  arch_uc :: 'vm
  assemble :: "string \<Rightarrow> int \<Rightarrow> exc + Instruction list"
  disassemble :: "byte list \<Rightarrow> nat \<Rightarrow> int \<Rightarrow> Instruction list"
  selector_registers :: "string list"
  SegmentDescriptor :: "int \<Rightarrow> SegmentType list \<Rightarrow> bool \<Rightarrow> int \<Rightarrow> bool \<Rightarrow> int"
  hook_add :: "'vm \<Rightarrow> hook \<Rightarrow> exc + 'vm"
  mem_map :: "'vm \<Rightarrow> int \<Rightarrow> int \<Rightarrow> Permission list \<Rightarrow> exc + 'vm"
  mem_write :: "'vm \<Rightarrow> int \<Rightarrow> byte list \<Rightarrow> exc + 'vm"
  mem_read :: "'vm \<Rightarrow> int \<Rightarrow> int \<Rightarrow> exc + byte list"
  mem_unmap :: "'vm \<Rightarrow> int \<Rightarrow> int \<Rightarrow> exc + 'vm"
  reg_read :: "'vm \<Rightarrow> string \<Rightarrow> exc + int"
  reg_write :: "'vm \<Rightarrow> string \<Rightarrow> int \<Rightarrow> exc + 'vm"
  emu_start :: "'vm \<Rightarrow> int \<Rightarrow> int \<Rightarrow> (exc + unit) \<times> 'vm"

text \<open>
  Modelled from the spec: the constants \<^verbatim>\<open>MEMORY_TEXT_SECTION_NAME\<close>,
  \<^verbatim>\<open>MEMORY_DATA_SECTION_NAME\<close> and \<^verbatim>\<open>MEMORY_STACK_SECTION_NAME\<close> of \<^verbatim>\<open>cemu.const\<close>,
  which is not among the sources; the spec names the reserved sections \<open>text\<close>,
  \<open>data\<close> and \<open>stack\<close>.
\<close>

definition MEMORY_TEXT_SECTION_NAME :: string where
  "MEMORY_TEXT_SECTION_NAME = ''text''"

definition MEMORY_DATA_SECTION_NAME :: string where
  "MEMORY_DATA_SECTION_NAME = ''data''"

definition MEMORY_STACK_SECTION_NAME :: string where
  "MEMORY_STACK_SECTION_NAME = ''stack''"

definition MEMORY_MAP_DEFAULT_LAYOUT :: "MemorySection list" where
  "MEMORY_MAP_DEFAULT_LAYOUT =
    [\<lparr>sec_name = MEMORY_TEXT_SECTION_NAME, sec_address = 0x00004000, sec_size = 0x1000,
       sec_permission = [READ, EXEC], sec_content = None\<rparr>,
     \<lparr>sec_name = MEMORY_DATA_SECTION_NAME, sec_address = 0x00005000, sec_size = 0x1000,
       sec_permission = [READ, WRITE], sec_content = None\<rparr>,
     \<lparr>sec_name = MEMORY_STACK_SECTION_NAME, sec_address = 0x00006000, sec_size = 0x4000,
       sec_permission = [READ, WRITE], sec_content = None\<rparr>]"

section \<open>Sequencing of calls that may raise\<close>

definition bindE ::
  "(exc + 'a) \<times> 's \<Rightarrow> ('a \<Rightarrow> 's \<Rightarrow> (exc + 'b) \<times> 's) \<Rightarrow> (exc + 'b) \<times> 's" where
  "bindE r f = (case r of (Inl e, s) \<Rightarrow> (Inl e, s) | (Inr a, s) \<Rightarrow> f a s)"

text \<open>
  A call of a method of \<^verbatim>\<open>self.vm\<close> that changes the engine. On \<open>None\<close> Python raises
  \<^verbatim>\<open>AttributeError\<close>. The event is recorded whether or not the engine raises.
\<close>

definition vm_call ::
  "event \<Rightarrow> ('vm \<Rightarrow> exc + 'vm) \<Rightarrow> 'vm Emulator \<Rightarrow> (exc + unit) \<times> 'vm Emulator" where
  "vm_call ev f st =
    (case vm st of
       None \<Rightarrow> (Inl (AttributeError ''NoneType''), st)
     | Some v \<Rightarrow>
        (case f v of
           Inl e \<Rightarrow> (Inl e, st\<lparr>trace := trace st @ [ev]\<rparr>)
         | Inr v' \<Rightarrow> (Inr (), st\<lparr>vm := Some v', trace := trace st @ [ev]\<rparr>)))"

text \<open>A call of \<^verbatim>\<open>self.vm.reg_read\<close>: the engine is read, not changed.\<close>

definition vm_reg_read ::
  "'vm GlobalContext \<Rightarrow> string \<Rightarrow> 'vm Emulator \<Rightarrow> (exc + int) \<times> 'vm Emulator" where
  "vm_reg_read ctx regname st =
    (case vm st of
       None \<Rightarrow> (Inl (AttributeError ''NoneType''), st)
     | Some v \<Rightarrow>
        (case reg_read ctx v regname of
           Inl e \<Rightarrow> (Inl e, st\<lparr>trace := trace st @ [EvRegRead regname]\<rparr>)
         | Inr val \<Rightarrow> (Inr val, st\<lparr>trace := trace st @ [EvRegRead regname]\<rparr>)))"

section \<open>The register cache\<close>

text \<open>\<^verbatim>\<open>Emulator.get_register_value\<close>.\<close>

definition get_register_value ::
  "'vm GlobalContext \<Rightarrow> 'vm Emulator \<Rightarrow> string \<Rightarrow> (exc + int option) \<times> 'vm Emulator" where
  "get_register_value ctx st regname =
    (if vm st = None then (Inr None, st)
     else bindE (vm_reg_read ctx regname st) (\<lambda>val st1. (Inr (Some val), st1)))"

text \<open>
  \<^verbatim>\<open>UserDict.__getitem__\<close> and \<^verbatim>\<open>UserDict.__setitem__\<close>, which \<^verbatim>\<open>EmulationRegisters\<close>
  inherits: a missing key raises \<^verbatim>\<open>KeyError\<close> on reading, and is added on writing.
\<close>

definition dict_getitem :: "'vm Emulator \<Rightarrow> string \<Rightarrow> (exc + int) \<times> 'vm Emulator" where
  "dict_getitem st key =
    (case map_of (registers st) key of
       None \<Rightarrow> (Inl (KeyError key), st)
     | Some val \<Rightarrow> (Inr val, st))"

definition registers_setitem ::
  "'vm Emulator \<Rightarrow> string \<Rightarrow> int \<Rightarrow> (exc + unit) \<times> 'vm Emulator" where
  "registers_setitem st key val = (Inr (), st\<lparr>registers := AList.update key val (registers st)\<rparr>)"

text \<open>\<^verbatim>\<open>EmulationRegisters.__getitem__\<close>; \<^verbatim>\<open>emu\<close> is the session that owns the cache.\<close>

definition registers_getitem ::
  "'vm GlobalContext \<Rightarrow> 'vm Emulator \<Rightarrow> string \<Rightarrow> (exc + int) \<times> 'vm Emulator" where
  "registers_getitem ctx st key =
    (if state st \<in> {RUNNING, IDLE, FINISHED} \<and> key \<in> set (map fst (registers st)) then
       (case get_register_value ctx st key of
          (Inl e, st1) \<Rightarrow> (Inl e, st1)
        | (Inr None, st1) \<Rightarrow> dict_getitem st1 key
        | (Inr (Some val), st1) \<Rightarrow>
            dict_getitem (st1\<lparr>registers := AList.update key val (registers st1)\<rparr>) key)
     else dict_getitem st key)"

text \<open>\<^verbatim>\<open>Emulator.pc\<close> and \<^verbatim>\<open>Emulator.sp\<close>.\<close>

definition pc :: "'vm GlobalContext \<Rightarrow> 'vm Emulator \<Rightarrow> (exc + int) \<times> 'vm Emulator" where
  "pc ctx st = registers_getitem ctx st (arch_pc ctx)"

definition sp :: "'vm GlobalContext \<Rightarrow> 'vm Emulator \<Rightarrow> (exc + int) \<times> 'vm Emulator" where
  "sp ctx st = registers_getitem ctx st (arch_sp ctx)"

section \<open>Sections\<close>

text \<open>\<^verbatim>\<open>Emulator.find_section\<close>.\<close>

definition find_section :: "'vm Emulator \<Rightarrow> string \<Rightarrow> exc + MemorySection" where
  "find_section st section_name =
    (let matches = filter (\<lambda>section. sec_name section = section_name) (sections st) in
     if matches = [] then Inl (KeyError section_name)
     else if length matches > 1 then Inl (ValueError section_name)
     else Inr (hd matches))"

text \<open>\<^verbatim>\<open>Emulator.is_running\<close>.\<close>

definition is_running :: "'vm Emulator \<Rightarrow> bool" where
  "is_running st = (state st \<in> {RUNNING, IDLE})"

section \<open>Setup\<close>

text \<open>The loop of \<^verbatim>\<open>__populate_memory\<close> over \<^verbatim>\<open>self.sections\<close>.\<close>

fun map_sections ::
  "'vm GlobalContext \<Rightarrow> MemorySection list \<Rightarrow> 'vm Emulator \<Rightarrow> (exc + unit) \<times> 'vm Emulator" where
  "map_sections ctx [] st = (Inr (), st)"
| "map_sections ctx (section # rest) st =
    bindE (vm_call (EvMemMap (sec_address section) (sec_size section) (sec_permission section))
             (\<lambda>v. mem_map ctx v (sec_address section) (sec_size section) (sec_permission section)) st)
      (\<lambda>_ st1.
        bindE (case sec_content section of
                 None \<Rightarrow> (Inr (), st1)
               | Some c \<Rightarrow>
                   if c = [] then (Inr (), st1)
                   else vm_call (EvMemWrite (sec_address section) c)
                          (\<lambda>v. mem_write ctx v (sec_address section) c) st1)
          (\<lambda>_ st2. map_sections ctx rest st2))"

text \<open>\<^verbatim>\<open>Emulator.__populate_memory\<close>.\<close>

definition populate_memory ::
  "'vm GlobalContext \<Rightarrow> 'vm Emulator \<Rightarrow> (exc + bool) \<times> 'vm Emulator" where
  "populate_memory ctx st =
    (if vm st = None then (Inr False, st)
     else if length (sections st) < 1 then (Inr False, st)
     else
       bindE (map_sections ctx (sections st) st)
         (\<lambda>_ st1. (Inr True,
            st1\<lparr>start_addr := sec_address (hd (sections st1)), end_addr := Some (- 1)\<rparr>)))"

text \<open>
  \<^verbatim>\<open>Emulator.__populate_vm_registers\<close>, block by block. Reading \<^verbatim>\<open>self.registers[...]\<close>
  is \<open>registers_getitem\<close>, also inside the f-string of \<^verbatim>\<open>warn\<close>; writing it is
  \<open>registers_setitem\<close>.
\<close>

definition set_initial_pc ::
  "'vm GlobalContext \<Rightarrow> 'vm Emulator \<Rightarrow> (exc + unit) \<times> 'vm Emulator" where
  "set_initial_pc ctx st =
    bindE (registers_getitem ctx st (arch_pc ctx))
      (\<lambda>val st1.
        if val = 0 then
          bindE (find_section st1 MEMORY_TEXT_SECTION_NAME, st1)
            (\<lambda>section st2.
              bindE (registers_setitem st2 (arch_pc ctx) (sec_address section))
                (\<lambda>_ st3. bindE (registers_getitem ctx st3 (arch_pc ctx)) (\<lambda>_ st4. (Inr (), st4))))
        else (Inr (), st1))"

definition set_initial_sp ::
  "'vm GlobalContext \<Rightarrow> 'vm Emulator \<Rightarrow> (exc + unit) \<times> 'vm Emulator" where
  "set_initial_sp ctx st =
    bindE (registers_getitem ctx st (arch_sp ctx))
      (\<lambda>val st1.
        if val = 0 then
          bindE (find_section st1 MEMORY_STACK_SECTION_NAME, st1)
            (\<lambda>section st2.
              bindE (registers_setitem st2 (arch_sp ctx)
                       (sec_address section + sec_size section div 2))
                (\<lambda>_ st3. bindE (registers_getitem ctx st3 (arch_sp ctx)) (\<lambda>_ st4. (Inr (), st4))))
        else (Inr (), st1))"

definition create_fake_selectors ::
  "'vm GlobalContext \<Rightarrow> 'vm Emulator \<Rightarrow> (exc + unit) \<times> 'vm Emulator" where
  "create_fake_selectors ctx st =
    bindE (find_section st MEMORY_TEXT_SECTION_NAME, st)
      (\<lambda>text st1.
    bindE (registers_setitem st1 ''CS''
             (SegmentDescriptor ctx (sec_address text div 2 ^ 8) [Code, Accessed] False 3 True))
      (\<lambda>_ st2.
    bindE (find_section st2 MEMORY_DATA_SECTION_NAME, st2)
      (\<lambda>data st3.
    bindE (registers_setitem st3 ''DS''
             (SegmentDescriptor ctx (sec_address data div 2 ^ 8) [Data, Accessed] False 3 True))
      (\<lambda>_ st4.
    bindE (find_section st4 MEMORY_STACK_SECTION_NAME, st4)
      (\<lambda>stack st5.
    bindE (registers_setitem st5 ''SS''
             (SegmentDescriptor ctx (sec_address stack div 2 ^ 8) [Data, Accessed, ExpandDown]
                False 3 True))
      (\<lambda>_ st6.
    bindE (registers_setitem st6 ''GS'' 0)
      (\<lambda>_ st7.
    bindE (registers_setitem st7 ''FS'' 0)
      (\<lambda>_ st8. registers_setitem st8 ''ES'' 0))))))))"

text \<open>
  The loop \<^verbatim>\<open>for regname, regvalue in self.registers.items()\<close>: the items view of a
  \<^verbatim>\<open>UserDict\<close> walks the keys and reads each value through \<^verbatim>\<open>__getitem__\<close>.
\<close>

fun write_registers ::
  "'vm GlobalContext \<Rightarrow> string list \<Rightarrow> 'vm Emulator \<Rightarrow> (exc + unit) \<times> 'vm Emulator" where
  "write_registers ctx [] st = (Inr (), st)"
| "write_registers ctx (regname # rest) st =
    bindE (registers_getitem ctx st regname)
      (\<lambda>regvalue st1.
        if regname \<in> set (selector_registers ctx) then write_registers ctx rest st1
        else
          bindE (vm_call (EvRegWrite regname regvalue)
                   (\<lambda>v. reg_write ctx v regname regvalue) st1)
            (\<lambda>_ st2. write_registers ctx rest st2))"

definition populate_vm_registers ::
  "'vm GlobalContext \<Rightarrow> 'vm Emulator \<Rightarrow> (exc + bool) \<times> 'vm Emulator" where
  "populate_vm_registers ctx st =
    (if vm st = None then (Inr False, st)
     else
       bindE (set_initial_pc ctx st)
         (\<lambda>_ st1.
       bindE (set_initial_sp ctx st1)
         (\<lambda>_ st2.
       bindE (if is_x86_32 ctx then create_fake_selectors ctx st2 else (Inr (), st2))
         (\<lambda>_ st3.
       bindE (write_registers ctx (map fst (registers st3)) st3)
         (\<lambda>_ st4. (Inr True, st4))))))"

text \<open>\<^verbatim>\<open>Emulator.__generate_text_bytecode\<close>; the \<^verbatim>\<open>try\<close> turns every failure into \<open>False\<close>.\<close>

definition generate_text_bytecode ::
  "'vm GlobalContext \<Rightarrow> 'vm Emulator \<Rightarrow> (exc + bool) \<times> 'vm Emulator" where
  "generate_text_bytecode ctx st =
    (case assemble ctx (codelines st) (start_addr st) of
       Inl e \<Rightarrow> (Inr False, st)
     | Inr insns \<Rightarrow>
         if length insns = 0 then (Inr False, st)
         else
           (let c = concat (map insn_bytes insns) in
            (Inr True, st\<lparr>code := c, end_addr := Some (start_addr st + int (length c))\<rparr>)))"

text \<open>
  The loop of \<^verbatim>\<open>__populate_text_section\<close> over the three reserved names: a \<^verbatim>\<open>KeyError\<close>
  of \<^verbatim>\<open>find_section\<close> becomes \<^verbatim>\<open>CemuEmulatorMissingRequiredSection\<close>, any other
  exception passes.
\<close>

fun check_required_sections :: "'vm Emulator \<Rightarrow> string list \<Rightarrow> exc option" where
  "check_required_sections st [] = None"
| "check_required_sections st (secname # rest) =
    (case find_section st secname of
       Inl (KeyError k) \<Rightarrow> Some (CemuEmulatorMissingRequiredSection secname)
     | Inl e \<Rightarrow> Some e
     | Inr section \<Rightarrow> check_required_sections st rest)"

text \<open>\<^verbatim>\<open>Emulator.__populate_text_section\<close>.\<close>

definition populate_text_section ::
  "'vm GlobalContext \<Rightarrow> 'vm Emulator \<Rightarrow> (exc + bool) \<times> 'vm Emulator" where
  "populate_text_section ctx st =
    (if vm st = None then (Inr False, st)
     else
       (case check_required_sections st
               [MEMORY_TEXT_SECTION_NAME, MEMORY_DATA_SECTION_NAME, MEMORY_STACK_SECTION_NAME] of
          Some e \<Rightarrow> (Inl e, st)
        | None \<Rightarrow>
            bindE (find_section st MEMORY_TEXT_SECTION_NAME, st)
              (\<lambda>text_section st1.
            bindE (generate_text_bytecode ctx st1)
              (\<lambda>ok st2.
                if \<not> ok then (Inr False, st2)
                else
                  bindE (vm_call (EvMemWrite (sec_address text_section) (code st2))
                           (\<lambda>v. mem_write ctx v (sec_address text_section) (code st2)) st2)
                    (\<lambda>_ st3. (Inr True, st3))))))"

text \<open>
  The hook installation of \<^verbatim>\<open>Emulator.setup\<close>, on the engine just created. The hook
  functions themselves (\<^verbatim>\<open>hook_block\<close>, \<^verbatim>\<open>hook_code\<close>, ...) only write to the log and
  are not modelled, like every other call of \<^verbatim>\<open>info\<close>, \<^verbatim>\<open>dbg\<close>, \<^verbatim>\<open>warn\<close> and
  \<^verbatim>\<open>error\<close>; what an f-string passed to them evaluates is modelled where it reads the
  register cache.
\<close>

definition vm_hook_add ::
  "'vm GlobalContext \<Rightarrow> hook \<Rightarrow> 'vm Emulator \<Rightarrow> (exc + unit) \<times> 'vm Emulator" where
  "vm_hook_add ctx h st = vm_call (EvHookAdd h) (\<lambda>v. hook_add ctx v h) st"

definition install_hooks ::
  "'vm GlobalContext \<Rightarrow> 'vm Emulator \<Rightarrow> (exc + unit) \<times> 'vm Emulator" where
  "install_hooks ctx st =
    bindE (vm_hook_add ctx UC_HOOK_BLOCK st)
      (\<lambda>_ st1.
    bindE (vm_hook_add ctx UC_HOOK_CODE st1)
      (\<lambda>_ st2.
    bindE (vm_hook_add ctx UC_HOOK_INTR st2)
      (\<lambda>_ st3.
    bindE (vm_hook_add ctx UC_HOOK_MEM_WRITE st3)
      (\<lambda>_ st4.
    bindE (vm_hook_add ctx UC_HOOK_MEM_READ st4)
      (\<lambda>_ st5.
        if is_x86 ctx then vm_hook_add ctx UC_HOOK_INSN st5 else (Inr (), st5))))))"

text \<open>\<^verbatim>\<open>Emulator.setup\<close> (\<open>setup\<close> alone is a reserved word here).\<close>

definition emu_setup ::
  "'vm GlobalContext \<Rightarrow> 'vm Emulator \<Rightarrow> (exc + unit) \<times> 'vm Emulator" where
  "emu_setup ctx st =
    (if vm st \<noteq> None then (Inr (), st)
     else
       bindE (install_hooks ctx (st\<lparr>vm := Some (arch_uc ctx)\<rparr>))
         (\<lambda>_ st1.
       bindE (populate_memory ctx st1)
         (\<lambda>ok1 st2.
           if \<not> ok1 then (Inl (RuntimeError ''populate_memory() failed''), st2)
           else
       bindE (populate_vm_registers ctx st2)
         (\<lambda>ok2 st3.
           if \<not> ok2 then (Inl (RuntimeError ''populate_registers() failed''), st3)
           else
       bindE (populate_text_section ctx st3)
         (\<lambda>ok3 st4.
           if \<not> ok3 then (Inl (Exception ''populate_text_section() failed''), st4)
           else (Inr (), st4))))))"

section \<open>Teardown, register refresh, memory access\<close>

fun unmap_sections ::
  "'vm GlobalContext \<Rightarrow> MemorySection list \<Rightarrow> 'vm Emulator \<Rightarrow> (exc + unit) \<times> 'vm Emulator" where
  "unmap_sections ctx [] st = (Inr (), st)"
| "unmap_sections ctx (section # rest) st =
    bindE (vm_call (EvMemUnmap (sec_address section) (sec_size section))
             (\<lambda>v. mem_unmap ctx v (sec_address section) (sec_size section)) st)
      (\<lambda>_ st1. unmap_sections ctx rest st1)"

text \<open>\<^verbatim>\<open>Emulator.teardown\<close>; the f-string of \<^verbatim>\<open>info\<close> calls \<^verbatim>\<open>self.pc()\<close>.\<close>

definition teardown ::
  "'vm GlobalContext \<Rightarrow> 'vm Emulator \<Rightarrow> (exc + unit) \<times> 'vm Emulator" where
  "teardown ctx st =
    (if vm st = None then (Inr (), st)
     else
       bindE (pc ctx st)
         (\<lambda>_ st1.
       bindE (unmap_sections ctx (sections st1) st1)
         (\<lambda>_ st2. (Inr (), st2\<lparr>vm := None\<rparr>))))"

fun refresh_loop ::
  "'vm GlobalContext \<Rightarrow> string list \<Rightarrow> 'vm Emulator \<Rightarrow> (exc + unit) \<times> 'vm Emulator" where
  "refresh_loop ctx [] st = (Inr (), st)"
| "refresh_loop ctx (regname # rest) st =
    bindE (vm_reg_read ctx regname st)
      (\<lambda>val st1.
    bindE (registers_setitem st1 regname val)
      (\<lambda>_ st2. refresh_loop ctx rest st2))"

text \<open>\<^verbatim>\<open>Emulator.__refresh_registers_from_vm\<close>.\<close>

definition refresh_registers_from_vm ::
  "'vm GlobalContext \<Rightarrow> 'vm Emulator \<Rightarrow> (exc + bool) \<times> 'vm Emulator" where
  "refresh_registers_from_vm ctx st =
    (if vm st = None \<or> \<not> is_running st then (Inr False, st)
     else
       bindE (refresh_loop ctx (map fst (registers st)) st)
         (\<lambda>_ st1. (Inr True, st1)))"

text \<open>\<^verbatim>\<open>Emulator.read\<close> and \<^verbatim>\<open>Emulator.write\<close>.\<close>

definition emu_read ::
  "'vm GlobalContext \<Rightarrow> 'vm Emulator \<Rightarrow> int \<Rightarrow> int \<Rightarrow> (exc + byte list option) \<times> 'vm Emulator" where
  "emu_read ctx st address sz =
    (if vm st = None \<or> \<not> is_running st then (Inr None, st)
     else
       (case vm st of
          None \<Rightarrow> (Inl (AttributeError ''NoneType''), st)
        | Some v \<Rightarrow>
           (case mem_read ctx v address sz of
              Inl e \<Rightarrow> (Inl e, st\<lparr>trace := trace st @ [EvMemRead address sz]\<rparr>)
            | Inr bs \<Rightarrow> (Inr (Some bs), st\<lparr>trace := trace st @ [EvMemRead address sz]\<rparr>))))"

definition emu_write ::
  "'vm GlobalContext \<Rightarrow> 'vm Emulator \<Rightarrow> int \<Rightarrow> byte list \<Rightarrow> (exc + int option) \<times> 'vm Emulator" where
  "emu_write ctx st address data =
    (if vm st = None \<or> \<not> is_running st then (Inr None, st)
     else
       bindE (vm_call (EvMemWrite address data) (\<lambda>v. mem_write ctx v address data) st)
         (\<lambda>_ st1. (Inr (Some (int (length data))), st1)))"

section \<open>The state machine and the execution driver\<close>

text \<open>
  The first \<^verbatim>\<open>match new_state\<close> of \<^verbatim>\<open>Emulator.set\<close>: the entry actions.
  \<^verbatim>\<open>except Exception\<close> catches every exception of \<^verbatim>\<open>self.setup()\<close>, shows it in a
  popup, and execution goes on after the \<^verbatim>\<open>try\<close> statement.
\<close>

definition state_entry_actions ::
  "'vm GlobalContext \<Rightarrow> 'vm Emulator \<Rightarrow> EmulatorState \<Rightarrow> (exc + unit) \<times> 'vm Emulator" where
  "state_entry_actions ctx st new_state =
    (if new_state = RUNNING \<or> new_state = IDLE then
       (let st1 = (case emu_setup ctx st of
                     (Inl e, s) \<Rightarrow> s\<lparr>trace := trace s @ [EvPopup (EmulatorSetupError e)]\<rparr>
                   | (Inr u, s) \<Rightarrow> s)
        in if state st1 = RUNNING
           then bindE (refresh_registers_from_vm ctx st1) (\<lambda>_ s. (Inr (), s))
           else (Inr (), st1))
     else if new_state = FINISHED then
       bindE (refresh_registers_from_vm ctx st) (\<lambda>_ s. (Inr (), s))
     else (Inr (), st))"

text \<open>
  The notification loop of \<^verbatim>\<open>Emulator.set\<close>; \<^verbatim>\<open>self.__state_change_callbacks[new_state]\<close>
  raises \<^verbatim>\<open>KeyError\<close> for a state that has no entry.
\<close>

definition notify_callbacks ::
  "'vm Emulator \<Rightarrow> EmulatorState \<Rightarrow> (exc + unit) \<times> 'vm Emulator" where
  "notify_callbacks st new_state =
    (case state_change_callbacks st new_state of
       None \<Rightarrow> (Inl (KeyError ''new_state''), st)
     | Some cbs \<Rightarrow> (Inr (), st\<lparr>trace := trace st @ map EvCallback cbs\<rparr>))"

text \<open>Python's \<^verbatim>\<open>xs[i:]\<close>: a negative index counts from the end, and is clamped.\<close>

definition slice_from :: "'a list \<Rightarrow> int \<Rightarrow> 'a list" where
  "slice_from xs i = (if i < 0 then drop (nat (int (length xs) + i)) xs else drop (nat i) xs)"

text \<open>\<^verbatim>\<open>Emulator.next_instruction\<close>: the first instruction the disassembler yields, if any.\<close>

definition next_instruction ::
  "'vm GlobalContext \<Rightarrow> byte list \<Rightarrow> int \<Rightarrow> Instruction option" where
  "next_instruction ctx c addr =
    (case disassemble ctx c 1 addr of [] \<Rightarrow> None | insn # rest \<Rightarrow> Some insn)"

text \<open>
  \<^verbatim>\<open>EmulationRunner.run\<close>, the part that determines where to start and where to stop:
  \<open>None\<close> when step mode finds no instruction to decode, else the pair
  \<^verbatim>\<open>(start_address, end_address)\<close>.
\<close>

definition run_window ::
  "'vm GlobalContext \<Rightarrow> 'vm Emulator \<Rightarrow> (exc + (int \<times> int) option) \<times> 'vm Emulator" where
  "run_window ctx emu =
    bindE (pc ctx emu)
      (\<lambda>p emu1.
        (let start_address = (if p \<noteq> 0 then p else start_addr emu1);
             start_offset = start_address - start_addr emu1
         in if use_step_mode emu1 then
              (case next_instruction ctx (slice_from (code emu1) start_offset) start_address of
                 None \<Rightarrow> (Inr None, emu1)
               | Some insn \<Rightarrow> (Inr (Some (start_address, insn_end insn)), emu1))
            else (Inr (Some (start_address, start_addr emu1 + int (length (code emu1)))), emu1)))"

text \<open>
  \<^verbatim>\<open>emu.vm.emu_start(start_address, end_address)\<close> under \<^verbatim>\<open>emu.lock\<close>; on one thread
  taking and releasing the lock changes nothing.
\<close>

definition vm_emu_start ::
  "'vm GlobalContext \<Rightarrow> int \<Rightarrow> int \<Rightarrow> 'vm Emulator \<Rightarrow> (exc + unit) \<times> 'vm Emulator" where
  "vm_emu_start ctx start_address end_address emu =
    (case vm emu of
       None \<Rightarrow> (Inl (AttributeError ''NoneType''), emu)
     | Some v \<Rightarrow>
        (case emu_start ctx v start_address end_address of
           (r, v') \<Rightarrow>
             (r, emu\<lparr>vm := Some v', trace := trace emu @ [EvEmuStart start_address end_address]\<rparr>)))"

text \<open>
  \<^verbatim>\<open>Emulator.set\<close> (here \<open>set_state\<close>: \<open>set\<close> is the set of a list),
  \<^verbatim>\<open>EmulationRunner.run\<close> and \<^verbatim>\<open>Emulator.reset\<close> call one another. In \<open>run\<close> the
  outer \<open>case\<close> is the \<^verbatim>\<open>except unicorn.unicorn.UcError\<close> clause around the whole
  \<^verbatim>\<open>try\<close> body, nested calls of \<^verbatim>\<open>emu.set\<close> included. \<open>reset\<close> builds the register
  cache as the dictionary comprehension does, key by key.
\<close>

function set_state ::
    "'vm GlobalContext \<Rightarrow> 'vm Emulator \<Rightarrow> EmulatorState \<Rightarrow> (exc + unit) \<times> 'vm Emulator"
  and run :: "'vm GlobalContext \<Rightarrow> 'vm Emulator \<Rightarrow> (exc + unit) \<times> 'vm Emulator"
  and reset :: "'vm GlobalContext \<Rightarrow> 'vm Emulator \<Rightarrow> (exc + unit) \<times> 'vm Emulator"
where
  "set_state ctx st new_state =
    (if state st = new_state then (Inr (), st)
     else
       (case state_entry_actions ctx st new_state of
          (Inl e, st1) \<Rightarrow> (Inl e, st1)
        | (Inr u, st1) \<Rightarrow>
           (case notify_callbacks (st1\<lparr>state := new_state\<rparr>) new_state of
              (Inl e, st2) \<Rightarrow> (Inl e, st2)
            | (Inr u, st2) \<Rightarrow>
               (case state st2 of
                  RUNNING \<Rightarrow>
                    (case threaded_runner st2 of
                       None \<Rightarrow> (Inl (AssertionError ''No threaded runner defined''), st2)
                     | Some EmulationRunner \<Rightarrow> run ctx st2)
                | TEARDOWN \<Rightarrow>
                    (case teardown ctx st2 of
                       (Inl e, st3) \<Rightarrow> (Inl e, st3)
                     | (Inr u, st3) \<Rightarrow> reset ctx st3)
                | _ \<Rightarrow> (Inr (), st2)))))"
| "run ctx emu =
    (if vm emu = None then (Inr (), emu)
     else if \<not> is_running emu then (Inr (), emu)
     else
       (case
          (case run_window ctx emu of
             (Inl e, emu1) \<Rightarrow> (Inl e, emu1)
           | (Inr None, emu1) \<Rightarrow> set_state ctx emu1 FINISHED
           | (Inr (Some (start_address, end_address)), emu1) \<Rightarrow>
               (case vm_emu_start ctx start_address end_address emu1 of
                  (Inl e, emu2) \<Rightarrow> (Inl e, emu2)
                | (Inr u, emu2) \<Rightarrow>
                   (case pc ctx emu2 of
                      (Inl e, emu3) \<Rightarrow> (Inl e, emu3)
                    | (Inr p, emu3) \<Rightarrow>
                        if p = start_addr emu3 + int (length (code emu3))
                        then set_state ctx emu3 FINISHED
                        else set_state ctx emu3 IDLE)))
        of
          (Inl (UcError c), emu4) \<Rightarrow>
            (case pc ctx emu4 of
               (Inl e, emu5) \<Rightarrow> (Inl e, emu5)
             | (Inr p, emu5) \<Rightarrow>
                (case sp ctx emu5 of
                   (Inl e, emu6) \<Rightarrow> (Inl e, emu6)
                 | (Inr s, emu6) \<Rightarrow>
                     set_state ctx
                       (emu6\<lparr>trace := trace emu6 @ [EvPopup (RunError (UcError c) p s)]\<rparr>)
                       FINISHED))
        | (r, emu4) \<Rightarrow> (r, emu4)))"
| "reset ctx st =
    set_state ctx
      (st\<lparr>vm := None, code := [], sections := MEMORY_MAP_DEFAULT_LAYOUT,
          registers := fold (\<lambda>name d. AList.update name 0 d) (arch_registers ctx) [],
          start_addr := 0\<rparr>)
      NOT_RUNNING"
  by pat_completeness auto

termination
  by (relation "measure (\<lambda>x. case x of
            Inl (ctx, st, new_state) \<Rightarrow>
              (if new_state = RUNNING \<or> new_state = TEARDOWN then 3 else 1)
          | Inr (Inl (ctx, emu)) \<Rightarrow> 2
          | Inr (Inr (ctx, st)) \<Rightarrow> 2)")
    (auto simp: notify_callbacks_def split: option.splits)

declare set_state.simps [simp del] run.simps [simp del] reset.simps [simp del]

text \<open>\<^verbatim>\<open>Emulator.add_state_change_cb\<close> and \<^verbatim>\<open>Emulator.set_threaded_runner\<close>.\<close>

definition add_state_change_cb ::
  "'vm Emulator \<Rightarrow> EmulatorState \<Rightarrow> nat \<Rightarrow> (exc + unit) \<times> 'vm Emulator" where
  "add_state_change_cb st new_state cb =
    (case state_change_callbacks st new_state of
       None \<Rightarrow> (Inl (KeyError ''new_state''), st)
     | Some cbs \<Rightarrow>
         (Inr (), st\<lparr>state_change_callbacks := (state_change_callbacks st)(new_state \<mapsto> cbs @ [cb])\<rparr>))"

definition set_threaded_runner :: "'vm Emulator \<Rightarrow> runner \<Rightarrow> 'vm Emulator" where
  "set_threaded_runner st runnable_object = st\<lparr>threaded_runner := Some runnable_object\<rparr>"

section \<open>Relations between the session before and after a call\<close>

text \<open>
  \<open>same_config st st'\<close>: the call left the state machine's fields, the section list and
  the source text as they were, kept every key of the register cache, and neither
  created nor dropped the engine handle. \<open>quiet\<close> adds that the call mapped no memory.
\<close>

definition same_config :: "'vm Emulator \<Rightarrow> 'vm Emulator \<Rightarrow> bool" where
  "same_config st st' \<longleftrightarrow>
     state st' = state st \<and> sections st' = sections st \<and>
     state_change_callbacks st' = state_change_callbacks st \<and>
     threaded_runner st' = threaded_runner st \<and>
     use_step_mode st' = use_step_mode st \<and> codelines st' = codelines st \<and>
     (vm st' = None) = (vm st = None) \<and>
     set (map fst (registers st)) \<subseteq> set (map fst (registers st'))"

definition quiet :: "'vm Emulator \<Rightarrow> 'vm Emulator \<Rightarrow> bool" where
  "quiet st st' \<longleftrightarrow>
     same_config st st' \<and> filter is_mem_map (trace st') = filter is_mem_map (trace st)"

text \<open>
  \<open>reads_only st st'\<close>: the call changed nothing but values of the register cache (not
  its keys) and the trace, which it only extended. \<open>keeps_cache st st'\<close>: the call left
  the state, the sections, the callbacks and the whole register cache as they were.
\<close>

definition reads_only :: "'vm Emulator \<Rightarrow> 'vm Emulator \<Rightarrow> bool" where
  "reads_only st st' \<longleftrightarrow>
     vm st' = vm st \<and> state st' = state st \<and> sections st' = sections st \<and>
     state_change_callbacks st' = state_change_callbacks st \<and>
     threaded_runner st' = threaded_runner st \<and>
     use_step_mode st' = use_step_mode st \<and> code st' = code st \<and>
     start_addr st' = start_addr st \<and>
     map fst (registers st') = map fst (registers st) \<and>
     set (trace st) \<subseteq> set (trace st')"

definition keeps_cache :: "'vm Emulator \<Rightarrow> 'vm Emulator \<Rightarrow> bool" where
  "keeps_cache st st' \<longleftrightarrow>
     state st' = state st \<and> sections st' = sections st \<and>
     registers st' = registers st \<and>
     state_change_callbacks st' = state_change_callbacks st \<and>
     (vm st' = None) = (vm st = None)"

section \<open>A concrete architecture, engine and session\<close>

text \<open>
  A small instance of the parameters, on which the theorems below are evaluated: three
  registers, an assembler that emits one one-byte instruction per character of the
  source, and an engine whose state is its register file and whose run primitive moves
  the program counter to the stop address (or, when \<open>faulty\<close>, raises with the program
  counter at the start address). \<open>demo_session\<close> is the session after \<^verbatim>\<open>reset\<close>, with
  the four callbacks and the runner that \<^verbatim>\<open>CEmuWindow\<close> registers.
\<close>

definition demo_ctx :: "bool \<Rightarrow> (string \<times> int) list GlobalContext" where
  "demo_ctx faulty =
    \<lparr>arch_registers = [''A'', ''PC'', ''SP''], arch_pc = ''PC'', arch_sp = ''SP'',
     is_x86 = False, is_x86_32 = False, arch_uc = [],
     assemble = (\<lambda>src base.
        Inr (map (\<lambda>i. \<lparr>insn_address = base + int i, insn_bytes = [0x90],
                         insn_end = base + int i + 1\<rparr>) [0..<length src])),
     disassemble = (\<lambda>c n addr.
        if c = [] \<or> n = 0 then []
        else [\<lparr>insn_address = addr, insn_bytes = take 1 c, insn_end = addr + 1\<rparr>]),
     selector_registers = [''CS'', ''DS'', ''ES'', ''FS'', ''GS'', ''SS''],
     SegmentDescriptor = (\<lambda>base ty b1 dpl b2. base),
     hook_add = (\<lambda>v h. Inr v),
     mem_map = (\<lambda>v a s p. Inr v),
     mem_write = (\<lambda>v a bs. Inr v),
     mem_read = (\<lambda>v a n. Inr (replicate (nat n) 0)),
     mem_unmap = (\<lambda>v a s. Inr v),
     reg_read = (\<lambda>v r. Inr (case map_of v r of None \<Rightarrow> 0 | Some x \<Rightarrow> x)),
     reg_write = (\<lambda>v r x. Inr (AList.update r x v)),
     emu_start = (\<lambda>v s e.
        if faulty then (Inl (UcError 6), AList.update ''PC'' s v)
        else (Inr (), AList.update ''PC'' e v))\<rparr>"

definition demo_session :: "(string \<times> int) list Emulator" where
  "demo_session =
    \<lparr>use_step_mode = False, state = NOT_RUNNING,
     state_change_callbacks =
       [STARTING \<mapsto> [], NOT_RUNNING \<mapsto> [0], IDLE \<mapsto> [2], RUNNING \<mapsto> [1],
        TEARDOWN \<mapsto> [], FINISHED \<mapsto> [3]],
     threaded_runner = Some EmulationRunner, vm = None, code = [], codelines = ''ab'',
     sections = MEMORY_MAP_DEFAULT_LAYOUT,
     registers = [(''A'', 0), (''PC'', 0), (''SP'', 0)],
     start_addr = 0, end_addr = None, trace = []\<rparr>"

text \<open>
  The demo session as a successful setup and the transition to Running leave it when
  the runner is invoked: an engine holding the seeded registers, two compiled bytes.
\<close>

definition armed_session :: "(string \<times> int) list Emulator" where
  "armed_session =
    \<lparr>use_step_mode = False, state = RUNNING,
     state_change_callbacks =
       [STARTING \<mapsto> [], NOT_RUNNING \<mapsto> [0], IDLE \<mapsto> [2], RUNNING \<mapsto> [1],
        TEARDOWN \<mapsto> [], FINISHED \<mapsto> [3]],
     threaded_runner = Some EmulationRunner,
     vm = Some [(''A'', 0), (''PC'', 0x4000), (''SP'', 0x8000)],
     code = [0x90, 0x90], codelines = ''ab'',
     sections = MEMORY_MAP_DEFAULT_LAYOUT,
     registers = [(''A'', 0), (''PC'', 0x4000), (''SP'', 0x8000)],
     start_addr = 0x4000, end_addr = Some 0x4002, trace = []\<rparr>"

text \<open>The demo session with the stack section removed from the layout.\<close>

definition no_stack_session :: "(string \<times> int) list Emulator" where
  "no_stack_session =
     demo_session\<lparr>sections := [MEMORY_MAP_DEFAULT_LAYOUT ! 0, MEMORY_MAP_DEFAULT_LAYOUT ! 1]\<rparr>"

section \<open>Lemmas about the steps of setup and of register access\<close>

lemma same_config_refl [simp]: "same_config st st"
  by (simp add: same_config_def)

lemma same_config_trans: "same_config a b \<Longrightarrow> same_config b c \<Longrightarrow> same_config a c"
  by (auto simp: same_config_def)

lemma quiet_refl [simp]: "quiet st st"
  by (simp add: quiet_def)

lemma quiet_trans: "quiet a b \<Longrightarrow> quiet b c \<Longrightarrow> quiet a c"
  by (auto simp: quiet_def intro: same_config_trans)

lemma quiet_same_config: "quiet a b \<Longrightarrow> same_config a b"
  by (simp add: quiet_def)

lemma bindE_cases:
  assumes "bindE m f = (r, st')"
  obtains (raised) e where "m = (Inl e, st')" "r = Inl e"
  | (returned) a s where "m = (Inr a, s)" "f a s = (r, st')"
  using assms by (cases m; cases "fst m") (auto simp: bindE_def)

lemma bindE_Inr [simp]: "bindE (Inr a, s) f = f a s"
  by (simp add: bindE_def)

lemma bindE_Inl [simp]: "bindE (Inl e, s) f = (Inl e, s)"
  by (simp add: bindE_def)

lemma bindE_quiet:
  "quiet st (snd m) \<Longrightarrow> (\<And>a s. quiet s (snd (f a s))) \<Longrightarrow> quiet st (snd (bindE m f))"
  by (cases m; cases "fst m") (auto simp: bindE_def intro: quiet_trans)

lemma bindE_same_config:
  "same_config st (snd m) \<Longrightarrow> (\<And>a s. same_config s (snd (f a s))) \<Longrightarrow>
   same_config st (snd (bindE m f))"
  by (cases m; cases "fst m") (auto simp: bindE_def intro: same_config_trans)

lemma vm_call_same_config [simp]: "same_config st (snd (vm_call ev f st))"
  by (auto simp: vm_call_def same_config_def split: option.splits sum.splits)

lemma vm_call_quiet: "\<not> is_mem_map ev \<Longrightarrow> quiet st (snd (vm_call ev f st))"
  by (auto simp: vm_call_def quiet_def same_config_def split: option.splits sum.splits)

lemma vm_reg_read_quiet [simp]: "quiet st (snd (vm_reg_read ctx regname st))"
  by (auto simp: vm_reg_read_def quiet_def same_config_def split: option.splits sum.splits)

lemma dict_getitem_snd [simp]: "snd (dict_getitem st key) = st"
  by (simp add: dict_getitem_def split: option.splits)

lemma quiet_registers_update [simp]:
  "quiet st (st\<lparr>registers := AList.update k v (registers st)\<rparr>)"
  by (auto simp: quiet_def same_config_def update_keys)

lemma registers_setitem_quiet [simp]: "quiet st (snd (registers_setitem st key val))"
  by (simp add: registers_setitem_def)

lemma get_register_value_quiet [simp]: "quiet st (snd (get_register_value ctx st regname))"
  unfolding get_register_value_def by (auto intro!: bindE_quiet)

lemma registers_getitem_quiet [simp]: "quiet st (snd (registers_getitem ctx st key))"
proof -
  obtain r st1 where g: "get_register_value ctx st key = (r, st1)"
    by (cases "get_register_value ctx st key")
  have q: "quiet st st1"
    using get_register_value_quiet [of st ctx key] g by simp
  have q': "quiet st (st1\<lparr>registers := AList.update k v (registers st1)\<rparr>)" for k v
    by (rule quiet_trans [OF q]) simp
  show ?thesis
    unfolding registers_getitem_def using g q q'
    by (auto split: sum.splits option.splits)
qed

lemma set_initial_pc_quiet [simp]: "quiet st (snd (set_initial_pc ctx st))"
  unfolding set_initial_pc_def by (auto intro!: bindE_quiet)

lemma set_initial_sp_quiet [simp]: "quiet st (snd (set_initial_sp ctx st))"
  unfolding set_initial_sp_def by (auto intro!: bindE_quiet)

lemma create_fake_selectors_quiet [simp]: "quiet st (snd (create_fake_selectors ctx st))"
  unfolding create_fake_selectors_def by (auto intro!: bindE_quiet)

lemma write_registers_quiet [simp]: "quiet st (snd (write_registers ctx ks st))"
  by (induction ks arbitrary: st) (auto intro!: bindE_quiet vm_call_quiet)

lemma populate_vm_registers_quiet [simp]: "quiet st (snd (populate_vm_registers ctx st))"
  unfolding populate_vm_registers_def by (auto intro!: bindE_quiet)

lemma quiet_code_update [simp]: "quiet st (st\<lparr>code := c, end_addr := e\<rparr>)"
  by (simp add: quiet_def same_config_def)

lemma generate_text_bytecode_quiet [simp]: "quiet st (snd (generate_text_bytecode ctx st))"
  unfolding generate_text_bytecode_def by (auto split: sum.splits simp: Let_def)

lemma populate_text_section_quiet [simp]: "quiet st (snd (populate_text_section ctx st))"
  unfolding populate_text_section_def
  by (auto intro!: bindE_quiet vm_call_quiet split: option.splits)

lemma install_hooks_quiet [simp]: "quiet st (snd (install_hooks ctx st))"
  unfolding install_hooks_def vm_hook_add_def by (auto intro!: bindE_quiet vm_call_quiet)

lemma map_sections_same_config [simp]: "same_config st (snd (map_sections ctx secs st))"
  by (induction secs arbitrary: st) (auto intro!: bindE_same_config split: option.splits)

lemma populate_memory_same_config [simp]: "same_config st (snd (populate_memory ctx st))"
proof -
  have *: "same_config s (s\<lparr>start_addr := a, end_addr := e\<rparr>)" for s :: "'vm Emulator" and a e
    by (simp add: same_config_def)
  show ?thesis
    unfolding populate_memory_def by (auto intro!: bindE_same_config *)
qed


lemmas install_hooks_same_config [simp] = quiet_same_config [OF install_hooks_quiet]
lemmas populate_vm_registers_same_config [simp] =
  quiet_same_config [OF populate_vm_registers_quiet]
lemmas populate_text_section_same_config [simp] =
  quiet_same_config [OF populate_text_section_quiet]

lemma emu_setup_same_config:
  "vm st = None \<Longrightarrow> same_config (st\<lparr>vm := Some (arch_uc ctx)\<rparr>) (snd (emu_setup ctx st))"
  unfolding emu_setup_def
  by (auto intro!: bindE_same_config)

lemma emu_setup_keeps:
  "state (snd (emu_setup ctx st)) = state st \<and>
   sections (snd (emu_setup ctx st)) = sections st \<and>
   state_change_callbacks (snd (emu_setup ctx st)) = state_change_callbacks st \<and>
   threaded_runner (snd (emu_setup ctx st)) = threaded_runner st \<and>
   use_step_mode (snd (emu_setup ctx st)) = use_step_mode st \<and>
   codelines (snd (emu_setup ctx st)) = codelines st \<and>
   vm (snd (emu_setup ctx st)) \<noteq> None"
proof (cases "vm st")
  case None
  from emu_setup_same_config [OF this, of ctx] show ?thesis
    by (simp add: same_config_def)
next
  case (Some v)
  then show ?thesis by (simp add: emu_setup_def)
qed

lemma vm_call_trace:
  "vm_call ev f st = (Inr u, st') \<Longrightarrow> trace st' = trace st @ [ev]"
  by (auto simp: vm_call_def split: option.splits sum.splits)

lemma map_sections_trace:
  "map_sections ctx secs st = (Inr u, st') \<Longrightarrow>
   filter is_mem_map (trace st') =
   filter is_mem_map (trace st) @
   map (\<lambda>s. EvMemMap (sec_address s) (sec_size s) (sec_permission s)) secs"
proof (induction secs arbitrary: st)
  case Nil
  then show ?case by simp
next
  case (Cons sec0 rest)
  let ?ev = "EvMemMap (sec_address sec0) (sec_size sec0) (sec_permission sec0)"
  from Cons.prems obtain u1 st1 u2 st2 where
    m: "vm_call ?ev (\<lambda>v. mem_map ctx v (sec_address sec0) (sec_size sec0)
          (sec_permission sec0)) st = (Inr u1, st1)"
    and w: "(case sec_content sec0 of None \<Rightarrow> (Inr (), st1)
            | Some c \<Rightarrow> if c = [] then (Inr (), st1)
                else vm_call (EvMemWrite (sec_address sec0) c)
                       (\<lambda>v. mem_write ctx v (sec_address sec0) c) st1) = (Inr u2, st2)"
    and r: "map_sections ctx rest st2 = (Inr u, st')"
    by (auto elim!: bindE_cases)
  have "filter is_mem_map (trace st2) = filter is_mem_map (trace st1)"
    using w by (auto split: option.splits if_splits dest: vm_call_trace)
  with vm_call_trace [OF m] Cons.IH [OF r] show ?case by simp
qed

lemma registers_getitem_live:
  assumes "key \<in> set (map fst (registers st))" "state st \<in> {RUNNING, IDLE, FINISHED}"
    "vm st = Some v" "reg_read ctx v key = Inr x"
  shows "registers_getitem ctx st key =
           (Inr x, st\<lparr>trace := trace st @ [EvRegRead key],
                      registers := AList.update key x (registers st)\<rparr>)"
  using assms
  by (auto simp: registers_getitem_def get_register_value_def vm_reg_read_def
      dict_getitem_def update_conv')

lemma registers_getitem_cached:
  assumes "map_of (registers st) key = Some old" "state st \<notin> {RUNNING, IDLE, FINISHED}"
  shows "registers_getitem ctx st key = (Inr old, st)"
  using assms by (auto simp: registers_getitem_def dict_getitem_def)

lemma registers_getitem_no_engine:
  assumes "map_of (registers st) key = Some old" "vm st = None"
  shows "registers_getitem ctx st key = (Inr old, st)"
  using assms
  by (auto simp: registers_getitem_def get_register_value_def dict_getitem_def)

lemma map_of_key: "map_of al k = Some y \<Longrightarrow> k \<in> set (map fst al)"
  by (metis map_of_eq_None_iff option.distinct(1) set_map)

lemma emu_setup_noop: "vm st \<noteq> None \<Longrightarrow> emu_setup ctx st = (Inr (), st)"
  by (simp add: emu_setup_def)

lemma quiet_filter: "quiet st (snd m) \<Longrightarrow> m = (r, st') \<Longrightarrow>
  filter is_mem_map (trace st') = filter is_mem_map (trace st)"
  by (auto simp: quiet_def)

lemma populate_memory_trace:
  assumes "populate_memory ctx st = (Inr True, st')"
  shows "filter is_mem_map (trace st') =
         filter is_mem_map (trace st) @
         map (\<lambda>s. EvMemMap (sec_address s) (sec_size s) (sec_permission s)) (sections st)"
proof -
  from assms have "sections st \<noteq> []" "vm st \<noteq> None"
    by (auto simp: populate_memory_def split: if_splits)
  with assms obtain u st1 where m: "map_sections ctx (sections st) st = (Inr u, st1)"
    and e: "st' = st1\<lparr>start_addr := sec_address (hd (sections st1)), end_addr := Some (- 1)\<rparr>"
    by (auto simp: populate_memory_def elim!: bindE_cases)
  from map_sections_trace [OF m] e show ?thesis by simp
qed

lemma emu_setup_trace:
  assumes "vm st = None" "emu_setup ctx st = (Inr (), st')"
  shows "filter is_mem_map (trace st') =
         filter is_mem_map (trace st) @
         map (\<lambda>s. EvMemMap (sec_address s) (sec_size s) (sec_permission s)) (sections st)"
proof -
  let ?st0 = "st\<lparr>vm := Some (arch_uc ctx)\<rparr>"
  from assms obtain u st1 st2 st3 where
    h: "install_hooks ctx ?st0 = (Inr u, st1)"
    and m: "populate_memory ctx st1 = (Inr True, st2)"
    and r: "populate_vm_registers ctx st2 = (Inr True, st3)"
    and t: "populate_text_section ctx st3 = (Inr True, st')"
    by (auto simp: emu_setup_def elim!: bindE_cases split: if_splits)
  have 1: "filter is_mem_map (trace st1) = filter is_mem_map (trace st)"
    using quiet_filter [OF install_hooks_quiet h] by simp
  have s1: "sections st1 = sections st"
    using install_hooks_same_config [of ?st0 ctx] h by (simp add: same_config_def)
  have 3: "filter is_mem_map (trace st3) = filter is_mem_map (trace st2)"
    using quiet_filter [OF populate_vm_registers_quiet r] .
  have 4: "filter is_mem_map (trace st') = filter is_mem_map (trace st3)"
    using quiet_filter [OF populate_text_section_quiet t] .
  from populate_memory_trace [OF m] 1 s1 3 4 show ?thesis by simp
qed

lemmas section_names =
  MEMORY_TEXT_SECTION_NAME_def MEMORY_DATA_SECTION_NAME_def MEMORY_STACK_SECTION_NAME_def

lemmas demo_defs = demo_ctx_def demo_session_def MEMORY_MAP_DEFAULT_LAYOUT_def section_names

lemmas setup_defs =
  emu_setup_def install_hooks_def vm_hook_add_def vm_call_def populate_memory_def
  populate_vm_registers_def set_initial_pc_def set_initial_sp_def registers_getitem_def
  registers_setitem_def dict_getitem_def find_section_def populate_text_section_def
  generate_text_bytecode_def

section \<open>Lemmas about register refresh and the transitions that end a run\<close>

lemma reads_only_refl [simp]: "reads_only st st"
  by (simp add: reads_only_def)

lemma reads_only_trans: "reads_only a b \<Longrightarrow> reads_only b c \<Longrightarrow> reads_only a c"
  by (auto simp: reads_only_def)

lemma bindE_reads_only:
  "reads_only st (snd m) \<Longrightarrow> (\<And>a s. reads_only s (snd (f a s))) \<Longrightarrow>
   reads_only st (snd (bindE m f))"
  by (cases m; cases "fst m") (auto simp: bindE_def intro: reads_only_trans)

lemma vm_reg_read_reads_only [simp]: "reads_only st (snd (vm_reg_read ctx regname st))"
  by (auto simp: vm_reg_read_def reads_only_def split: option.splits sum.splits)

lemma get_register_value_reads_only [simp]:
  "reads_only st (snd (get_register_value ctx st regname))"
  unfolding get_register_value_def by (auto intro!: bindE_reads_only)

lemma reads_only_update_known:
  "k \<in> set (map fst (registers st)) \<Longrightarrow>
   reads_only st (st\<lparr>registers := AList.update k v (registers st)\<rparr>)"
  by (auto simp: reads_only_def update_keys)

lemma registers_getitem_reads_only [simp]:
  "reads_only st (snd (registers_getitem ctx st key))"
proof -
  obtain r st1 where g: "get_register_value ctx st key = (r, st1)"
    by (cases "get_register_value ctx st key")
  have q: "reads_only st st1"
    using get_register_value_reads_only [of st ctx key] g by simp
  have q': "reads_only st (st1\<lparr>registers := AList.update key v (registers st1)\<rparr>)"
    if "key \<in> set (map fst (registers st))" for v
  proof (rule reads_only_trans [OF q], rule reads_only_update_known)
    from q that show "key \<in> set (map fst (registers st1))"
      by (simp add: reads_only_def)
  qed
  show ?thesis
    unfolding registers_getitem_def using g q q'
    by (auto split: sum.splits option.splits)
qed

lemma pc_reads_only [simp]: "reads_only st (snd (pc ctx st))"
  by (simp add: pc_def)

lemma sp_reads_only [simp]: "reads_only st (snd (sp ctx st))"
  by (simp add: sp_def)

lemma run_window_reads_only [simp]: "reads_only st (snd (run_window ctx st))"
  unfolding run_window_def
  by (auto intro!: bindE_reads_only simp: Let_def split: option.splits)

lemma refresh_loop_ok:
  assumes "vm st = Some v" "\<forall>k. \<exists>x. reg_read ctx v k = Inr x"
    "set ks \<subseteq> set (map fst (registers st))"
  shows "\<exists>st'. refresh_loop ctx ks st = (Inr (), st') \<and> reads_only st st'"
  using assms
proof (induction ks arbitrary: st)
  case Nil
  then show ?case by simp
next
  case (Cons k ks)
  from Cons.prems(2) obtain x where x: "reg_read ctx v k = Inr x" by blast
  let ?st1 = "st\<lparr>trace := trace st @ [EvRegRead k]\<rparr>"
  let ?st2 = "?st1\<lparr>registers := AList.update k x (registers ?st1)\<rparr>"
  have r1: "vm_reg_read ctx k st = (Inr x, ?st1)"
    using Cons.prems(1) x by (simp add: vm_reg_read_def)
  have k: "k \<in> set (map fst (registers st))" using Cons.prems(3) by simp
  have ro: "reads_only st ?st2"
    using k by (auto simp: reads_only_def update_keys)
  have "vm ?st2 = Some v" using Cons.prems(1) by simp
  moreover have "set ks \<subseteq> set (map fst (registers ?st2))"
    using Cons.prems(3) k by (auto simp: update_keys)
  ultimately obtain st' where s: "refresh_loop ctx ks ?st2 = (Inr (), st')"
    and ro': "reads_only ?st2 st'"
    using Cons.IH [of ?st2] Cons.prems(2) by blast
  have "refresh_loop ctx (k # ks) st = (Inr (), st')"
    using r1 s by (simp add: registers_setitem_def)
  with reads_only_trans [OF ro ro'] show ?case by blast
qed

lemma refresh_registers_ok:
  assumes "vm st = Some v" "\<forall>k. \<exists>x. reg_read ctx v k = Inr x"
  shows "\<exists>b st'. refresh_registers_from_vm ctx st = (Inr b, st') \<and> reads_only st st'"
proof (cases "is_running st")
  case True
  from refresh_loop_ok [OF assms, of "map fst (registers st)"]
  obtain st' where "refresh_loop ctx (map fst (registers st)) st = (Inr (), st')"
    "reads_only st st'" by auto
  with True assms(1) show ?thesis
    by (auto simp: refresh_registers_from_vm_def)
next
  case False
  then show ?thesis by (auto simp: refresh_registers_from_vm_def)
qed

lemma state_entry_actions_leaf:
  assumes "vm st = Some v" "\<forall>k. \<exists>x. reg_read ctx v k = Inr x"
    "new_state = FINISHED \<or> new_state = IDLE"
  shows "\<exists>st'. state_entry_actions ctx st new_state = (Inr (), st') \<and> reads_only st st'"
proof -
  from refresh_registers_ok [OF assms(1,2)] obtain b st' where
    r: "refresh_registers_from_vm ctx st = (Inr b, st')" "reads_only st st'" by blast
  have s: "emu_setup ctx st = (Inr (), st)"
    using assms(1) by (simp add: emu_setup_noop)
  show ?thesis
    using assms(3) r s by (auto simp: state_entry_actions_def)
qed

lemma set_state_leaf:
  assumes "vm st = Some v" "\<forall>k. \<exists>x. reg_read ctx v k = Inr x"
    "new_state = FINISHED \<or> new_state = IDLE"
    "state_change_callbacks st new_state = Some cbs"
  shows "\<exists>st'. set_state ctx st new_state = (Inr (), st') \<and> state st' = new_state \<and>
           set (trace st) \<subseteq> set (trace st')"
proof (cases "state st = new_state")
  case True
  then show ?thesis by (simp add: set_state.simps)
next
  case False
  from state_entry_actions_leaf [OF assms(1,2,3)] obtain st1 where
    e: "state_entry_actions ctx st new_state = (Inr (), st1)" and ro: "reads_only st st1"
    by blast
  let ?st2 = "st1\<lparr>state := new_state, trace := trace st1 @ map EvCallback cbs\<rparr>"
  have n: "notify_callbacks (st1\<lparr>state := new_state\<rparr>) new_state = (Inr (), ?st2)"
    using ro assms(4) by (simp add: notify_callbacks_def reads_only_def)
  have "set_state ctx st new_state = (Inr (), ?st2)"
    using False e n assms(3) by (auto simp: set_state.simps)
  moreover have "set (trace st) \<subseteq> set (trace ?st2)"
    using ro by (auto simp: reads_only_def)
  ultimately show ?thesis by simp
qed

lemma vm_emu_start_eq:
  "vm emu = Some v \<Longrightarrow> emu_start ctx v s e = (r, v') \<Longrightarrow>
   vm_emu_start ctx s e emu = (r, emu\<lparr>vm := Some v', trace := trace emu @ [EvEmuStart s e]\<rparr>)"
  by (simp add: vm_emu_start_def)

lemma pc_live:
  assumes "arch_pc ctx \<in> set (map fst (registers st))" "state st \<in> {RUNNING, IDLE, FINISHED}"
    "vm st = Some v" "reg_read ctx v (arch_pc ctx) = Inr x"
  shows "pc ctx st =
           (Inr x, st\<lparr>trace := trace st @ [EvRegRead (arch_pc ctx)],
                      registers := AList.update (arch_pc ctx) x (registers st)\<rparr>)"
  unfolding pc_def by (rule registers_getitem_live [OF assms])

lemma sp_live:
  assumes "arch_sp ctx \<in> set (map fst (registers st))" "state st \<in> {RUNNING, IDLE, FINISHED}"
    "vm st = Some v" "reg_read ctx v (arch_sp ctx) = Inr x"
  shows "sp ctx st =
           (Inr x, st\<lparr>trace := trace st @ [EvRegRead (arch_sp ctx)],
                      registers := AList.update (arch_sp ctx) x (registers st)\<rparr>)"
  unfolding sp_def by (rule registers_getitem_live [OF assms])

lemmas run_defs =
  run_window_def pc_def sp_def registers_getitem_def get_register_value_def vm_reg_read_def
  dict_getitem_def next_instruction_def slice_from_def bindE_def

section \<open>Lemmas about teardown and the Teardown transition\<close>

lemma keeps_cache_refl [simp]: "keeps_cache st st"
  by (simp add: keeps_cache_def)

lemma keeps_cache_trans: "keeps_cache a b \<Longrightarrow> keeps_cache b c \<Longrightarrow> keeps_cache a c"
  by (auto simp: keeps_cache_def)

lemma unmap_sections_ok:
  assumes "vm st \<noteq> None" "\<forall>v a s. \<exists>v'. mem_unmap ctx v a s = Inr v'"
  shows "\<exists>st'. unmap_sections ctx secs st = (Inr (), st') \<and> keeps_cache st st'"
  using assms(1)
proof (induction secs arbitrary: st)
  case Nil
  then show ?case by simp
next
  case (Cons sec0 rest)
  from Cons.prems obtain v where v: "vm st = Some v" by blast
  from assms(2) obtain v' where u: "mem_unmap ctx v (sec_address sec0) (sec_size sec0) = Inr v'"
    by blast
  let ?st1 = "st\<lparr>vm := Some v', trace := trace st @ [EvMemUnmap (sec_address sec0) (sec_size sec0)]\<rparr>"
  have c: "vm_call (EvMemUnmap (sec_address sec0) (sec_size sec0))
             (\<lambda>v. mem_unmap ctx v (sec_address sec0) (sec_size sec0)) st = (Inr (), ?st1)"
    using v u by (simp add: vm_call_def)
  have k: "keeps_cache st ?st1" using v by (simp add: keeps_cache_def)
  from Cons.IH [of ?st1] obtain st' where
    r: "unmap_sections ctx rest ?st1 = (Inr (), st')" "keeps_cache ?st1 st'" by auto
  have "unmap_sections ctx (sec0 # rest) st = (Inr (), st')"
    using c r(1) by simp
  with keeps_cache_trans [OF k r(2)] show ?case by blast
qed

lemma teardown_ok:
  assumes "vm st \<noteq> None" "\<forall>v a s. \<exists>v'. mem_unmap ctx v a s = Inr v'"
    "state st \<notin> {RUNNING, IDLE, FINISHED}" "arch_pc ctx \<in> set (map fst (registers st))"
  shows "\<exists>st'. teardown ctx st = (Inr (), st') \<and> vm st' = None \<and> state st' = state st \<and>
           sections st' = sections st \<and> registers st' = registers st \<and>
           state_change_callbacks st' = state_change_callbacks st"
proof -
  from assms(4) obtain old where "map_of (registers st) (arch_pc ctx) = Some old"
    by (metis map_of_eq_None_iff not_Some_eq set_map)
  from registers_getitem_cached [OF this assms(3), of ctx]
  have p: "pc ctx st = (Inr old, st)" by (simp add: pc_def)
  from unmap_sections_ok [OF assms(1,2), of "sections st"] obtain st1 where
    u: "unmap_sections ctx (sections st) st = (Inr (), st1)" and k: "keeps_cache st st1"
    by blast
  have "teardown ctx st = (Inr (), st1\<lparr>vm := None\<rparr>)"
    using assms(1) p u by (auto simp: teardown_def)
  with k show ?thesis by (simp add: keeps_cache_def)
qed

lemma update_values: "snd ` set (AList.update k v al) \<subseteq> insert v (snd ` set al)"
  by (induction al) auto

lemma zero_cache:
  "snd ` set d \<subseteq> {0} \<Longrightarrow>
   snd ` set (fold (\<lambda>name d. AList.update name (0::int) d) names d) \<subseteq> {0}"
proof (induction names arbitrary: d)
  case Nil
  then show ?case by simp
next
  case (Cons n ns)
  from update_values [of n 0 d] Cons.prems
  have "snd ` set (AList.update n (0::int) d) \<subseteq> {0}" by blast
  from Cons.IH [OF this] show ?case by simp
qed

lemma state_entry_actions_other:
  "new_state \<notin> {RUNNING, IDLE, FINISHED} \<Longrightarrow> state_entry_actions ctx st new_state = (Inr (), st)"
  by (simp add: state_entry_actions_def)

lemma notify_callbacks_eq:
  "state_change_callbacks st new_state = Some cbs \<Longrightarrow>
   notify_callbacks st new_state = (Inr (), st\<lparr>trace := trace st @ map EvCallback cbs\<rparr>)"
  by (simp add: notify_callbacks_def)

lemma set_state_teardown:
  assumes "vm st \<noteq> None" "\<forall>v a s. \<exists>v'. mem_unmap ctx v a s = Inr v'"
    "state st = NOT_RUNNING" "arch_pc ctx \<in> set (map fst (registers st))"
    "state_change_callbacks st TEARDOWN = Some cbs1"
    "state_change_callbacks st NOT_RUNNING = Some cbs2"
  shows "\<exists>st'. set_state ctx st TEARDOWN = (Inr (), st') \<and> vm st' = None \<and>
           state st' = NOT_RUNNING \<and> sections st' = MEMORY_MAP_DEFAULT_LAYOUT \<and>
           snd ` set (registers st') \<subseteq> {0}"
proof -
  define sA where "sA = st\<lparr>state := TEARDOWN, trace := trace st @ map EvCallback cbs1\<rparr>"
  have n1: "notify_callbacks (st\<lparr>state := TEARDOWN\<rparr>) TEARDOWN = (Inr (), sA)"
    unfolding sA_def using assms(5) by (simp add: notify_callbacks_def)
  have "\<exists>sB. teardown ctx sA = (Inr (), sB) \<and> vm sB = None \<and> state sB = state sA \<and>
           sections sB = sections sA \<and> registers sB = registers sA \<and>
           state_change_callbacks sB = state_change_callbacks sA"
    using assms(1,4) by (intro teardown_ok assms(2)) (simp_all add: sA_def)
  then obtain sB where t: "teardown ctx sA = (Inr (), sB)" and b: "state sB = TEARDOWN"
    "state_change_callbacks sB = state_change_callbacks st"
    by (auto simp: sA_def)
  define sC where
    "sC = sB\<lparr>vm := None, code := [], sections := MEMORY_MAP_DEFAULT_LAYOUT,
             registers := fold (\<lambda>name d. AList.update name 0 d) (arch_registers ctx) [],
             start_addr := 0\<rparr>"
  define sD where "sD = sC\<lparr>state := NOT_RUNNING, trace := trace sC @ map EvCallback cbs2\<rparr>"
  have n2: "notify_callbacks (sC\<lparr>state := NOT_RUNNING\<rparr>) NOT_RUNNING = (Inr (), sD)"
    unfolding sD_def using assms(6) b(2) by (simp add: notify_callbacks_def sC_def)
  have r: "reset ctx sB = (Inr (), sD)"
    using b(1) n2
    by (simp add: reset.simps set_state.simps [of ctx sC] sC_def [symmetric]
        state_entry_actions_other sD_def)
      (simp add: sC_def)
  have "set_state ctx st TEARDOWN = (Inr (), sD)"
    using assms(3) n1 t r
    by (simp add: set_state.simps [of ctx st] state_entry_actions_other sA_def)
  moreover have "snd ` set (registers sD) \<subseteq> {0}"
    using zero_cache [of "[]" "arch_registers ctx"] by (simp add: sD_def sC_def)
  ultimately show ?thesis by (simp add: sD_def sC_def)
qed

lemma emu_setup_result:
  assumes "emu_setup ctx st = (r, st1)"
  shows "state st1 = state st" "sections st1 = sections st"
    "state_change_callbacks st1 = state_change_callbacks st"
    "threaded_runner st1 = threaded_runner st" "vm st1 \<noteq> None"
  using emu_setup_keeps [of ctx st] assms by simp_all

lemma emu_setup_keys:
  "set (map fst (registers st)) \<subseteq> set (map fst (registers (snd (emu_setup ctx st))))"
proof (cases "vm st")
  case None
  from emu_setup_same_config [OF this, of ctx] show ?thesis
    by (simp add: same_config_def)
next
  case (Some v)
  then show ?thesis by (simp add: emu_setup_def)
qed

lemmas machine_defs =
  set_state.simps run.simps reset.simps state_entry_actions_def notify_callbacks_def
  refresh_registers_from_vm_def is_running_def vm_emu_start_def teardown_def

section \<open>The claims\<close>

subsection \<open>C1: a transition to Running or Idle whose setup fails\<close>

text \<open>
  Claim C1 says that, when a transition to Running or Idle on a session with no engine
  finds setup failing, the error is surfaced to the caller and the rest of the
  transition is aborted: the state is not changed, no observer of the target state is
  fired and the execution driver is not invoked. The code does not do this. The comment
  above the \<^verbatim>\<open>try\<close> in \<^verbatim>\<open>Emulator.set\<close> reads "Make sure there's always an emulation
  environment ready", but the \<^verbatim>\<open>except\<close> clause only shows a popup and has no
  \<^verbatim>\<open>return\<close>, so the transition goes on without one; and the driver's own guard
  ("VM is not ready") does not stop it, because the failed setup leaves \<^verbatim>\<open>self.vm\<close> set.
  The theorem evaluates the code on the session after reset with the stack section
  removed. Setup raises and leaves an engine handle and no compiled code. The transition
  to Idle returns normally, with the state Idle and the Idle observer fired. The
  transition to Running returns normally, fires the Running observer and calls the
  engine's run primitive on the empty window from \<open>0x4000\<close> to \<open>0x4000\<close>, and the
  session ends in Finished.
\<close>

theorem set_state_goes_on_after_failed_setup:
  "vm no_stack_session = None \<and>
   fst (emu_setup (demo_ctx False) no_stack_session) = Inl (KeyError ''stack'') \<and>
   vm (snd (emu_setup (demo_ctx False) no_stack_session)) = Some [] \<and>
   code (snd (emu_setup (demo_ctx False) no_stack_session)) = [] \<and>
   fst (set_state (demo_ctx False) no_stack_session IDLE) = Inr () \<and>
   state (snd (set_state (demo_ctx False) no_stack_session IDLE)) = IDLE \<and>
   EvCallback 2 \<in> set (trace (snd (set_state (demo_ctx False) no_stack_session IDLE))) \<and>
   fst (set_state (demo_ctx False) no_stack_session RUNNING) = Inr () \<and>
   EvCallback 1 \<in> set (trace (snd (set_state (demo_ctx False) no_stack_session RUNNING))) \<and>
   EvEmuStart 0x4000 0x4000
     \<in> set (trace (snd (set_state (demo_ctx False) no_stack_session RUNNING))) \<and>
   code (snd (set_state (demo_ctx False) no_stack_session RUNNING)) = [] \<and>
   state (snd (set_state (demo_ctx False) no_stack_session RUNNING)) = FINISHED"
  by (simp add: machine_defs run_defs setup_defs no_stack_session_def demo_defs)

subsection \<open>C2: setup with a reserved section missing\<close>

text \<open>
  Claim C2 says that, when one of the sections \<open>text\<close>, \<open>data\<close>, \<open>stack\<close> is absent,
  setup fails with \<^verbatim>\<open>MissingRequiredSection\<close> naming it and the session stays
  NotRunning with no engine created. The code has a loop for exactly this in
  \<^verbatim>\<open>__populate_text_section\<close>, which turns the \<^verbatim>\<open>KeyError\<close> of \<^verbatim>\<open>find_section\<close> into
  \<^verbatim>\<open>CemuEmulatorMissingRequiredSection\<close>, but \<^verbatim>\<open>__populate_vm_registers\<close> runs before
  it and calls \<^verbatim>\<open>find_section\<close> unguarded. The theorem evaluates the code on the session
  after reset with the stack section removed (the scenario of the spec's testable
  property): setup raises the bare \<^verbatim>\<open>KeyError\<close>, the state stays NotRunning, and the
  engine handle assigned at the start of setup is still set afterwards; the check of
  \<^verbatim>\<open>__populate_text_section\<close>, had it been reached on that session, raises the error
  the claim names.
\<close>

theorem emu_setup_missing_stack_raises_key_error:
  "vm no_stack_session = None \<and> state no_stack_session = NOT_RUNNING \<and>
   MEMORY_STACK_SECTION_NAME \<notin> sec_name ` set (sections no_stack_session) \<and>
   fst (emu_setup (demo_ctx False) no_stack_session) = Inl (KeyError ''stack'') \<and>
   state (snd (emu_setup (demo_ctx False) no_stack_session)) = NOT_RUNNING \<and>
   vm (snd (emu_setup (demo_ctx False) no_stack_session)) = Some [] \<and>
   fst (populate_vm_registers (demo_ctx False) (no_stack_session\<lparr>vm := Some []\<rparr>)) =
     Inl (KeyError ''stack'') \<and>
   fst (populate_text_section (demo_ctx False) (no_stack_session\<lparr>vm := Some []\<rparr>)) =
     Inl (CemuEmulatorMissingRequiredSection ''stack'')"
  by (simp add: setup_defs no_stack_session_def demo_defs)

subsection \<open>C3: setup followed by teardown\<close>

text \<open>
  Claim C3 says that setup followed immediately by teardown leaves an engine-less
  NotRunning session with the default section list and every register-cache entry zero.
  \<^verbatim>\<open>Emulator.teardown\<close> unmaps the sections and drops the engine handle, nothing else:
  on the demo session the cache still holds the program counter and the stack pointer
  that setup seeded.
\<close>

theorem teardown_keeps_seeded_registers:
  "vm demo_session = None \<and> state demo_session = NOT_RUNNING \<and>
   sections demo_session = MEMORY_MAP_DEFAULT_LAYOUT \<and>
   snd ` set (registers demo_session) \<subseteq> {0} \<and>
   fst (emu_setup (demo_ctx False) demo_session) = Inr () \<and>
   fst (teardown (demo_ctx False) (snd (emu_setup (demo_ctx False) demo_session))) = Inr () \<and>
   registers (snd (teardown (demo_ctx False) (snd (emu_setup (demo_ctx False) demo_session)))) =
     [(''A'', 0), (''PC'', 0x4000), (''SP'', 0x8000)]"
  by (simp add: teardown_def run_defs setup_defs demo_defs)

text \<open>
  C3 as amended: for a session with no engine, in state NotRunning, with the default
  layout and the program counter among the cache's keys, an engine that accepts every
  unmap, and callback entries for Teardown and NotRunning: whatever setup returns,
  teardown right after it returns normally and leaves no engine handle, the state
  NotRunning, the default section list, and the register cache exactly as setup left
  it; and the transition to Teardown right after setup (teardown, then reset) returns
  normally and leaves no engine handle, the state NotRunning, the default section list
  and every register-cache entry zero.
\<close>

theorem setup_then_teardown:
  assumes "vm st = None" "state st = NOT_RUNNING" "sections st = MEMORY_MAP_DEFAULT_LAYOUT"
    "arch_pc ctx \<in> set (map fst (registers st))"
    "\<forall>v a s. \<exists>v'. mem_unmap ctx v a s = Inr v'"
    "state_change_callbacks st TEARDOWN = Some cbs1"
    "state_change_callbacks st NOT_RUNNING = Some cbs2"
  shows "(\<exists>st2. teardown ctx (snd (emu_setup ctx st)) = (Inr (), st2) \<and> vm st2 = None \<and>
            state st2 = NOT_RUNNING \<and> sections st2 = MEMORY_MAP_DEFAULT_LAYOUT \<and>
            registers st2 = registers (snd (emu_setup ctx st))) \<and>
         (\<exists>st3. set_state ctx (snd (emu_setup ctx st)) TEARDOWN = (Inr (), st3) \<and> vm st3 = None \<and>
            state st3 = NOT_RUNNING \<and> sections st3 = MEMORY_MAP_DEFAULT_LAYOUT \<and>
            snd ` set (registers st3) \<subseteq> {0})"
proof -
  let ?st1 = "snd (emu_setup ctx st)"
  have e: "emu_setup ctx st = (fst (emu_setup ctx st), ?st1)" by simp
  note r = emu_setup_result [OF e]
  have k: "arch_pc ctx \<in> set (map fst (registers ?st1))"
    using emu_setup_keys [of st ctx] assms(4) by blast
  have s: "state ?st1 \<notin> {RUNNING, IDLE, FINISHED}" using r(1) assms(2) by simp
  from teardown_ok [OF r(5) assms(5) s k] r(1,2) assms(2,3)
  have a: "\<exists>st2. teardown ctx ?st1 = (Inr (), st2) \<and> vm st2 = None \<and>
            state st2 = NOT_RUNNING \<and> sections st2 = MEMORY_MAP_DEFAULT_LAYOUT \<and>
            registers st2 = registers ?st1"
    by auto
  have "state ?st1 = NOT_RUNNING" "state_change_callbacks ?st1 TEARDOWN = Some cbs1"
    "state_change_callbacks ?st1 NOT_RUNNING = Some cbs2"
    using r(1,3) assms(2,6,7) by simp_all
  from set_state_teardown [OF r(5) assms(5) this(1) k this(2,3)] a
  show ?thesis by blast
qed

theorem setup_then_teardown_witness:
  "vm demo_session = None \<and> state demo_session = NOT_RUNNING \<and>
   sections demo_session = MEMORY_MAP_DEFAULT_LAYOUT \<and>
   fst (teardown (demo_ctx False) (snd (emu_setup (demo_ctx False) demo_session))) = Inr () \<and>
   vm (snd (teardown (demo_ctx False) (snd (emu_setup (demo_ctx False) demo_session)))) = None \<and>
   state (snd (teardown (demo_ctx False) (snd (emu_setup (demo_ctx False) demo_session)))) =
     NOT_RUNNING \<and>
   sections (snd (teardown (demo_ctx False) (snd (emu_setup (demo_ctx False) demo_session)))) =
     MEMORY_MAP_DEFAULT_LAYOUT \<and>
   fst (set_state (demo_ctx False) (snd (emu_setup (demo_ctx False) demo_session)) TEARDOWN) =
     Inr () \<and>
   vm (snd (set_state (demo_ctx False) (snd (emu_setup (demo_ctx False) demo_session)) TEARDOWN)) =
     None \<and>
   state (snd (set_state (demo_ctx False) (snd (emu_setup (demo_ctx False) demo_session))
     TEARDOWN)) = NOT_RUNNING \<and>
   sections (snd (set_state (demo_ctx False) (snd (emu_setup (demo_ctx False) demo_session))
     TEARDOWN)) = MEMORY_MAP_DEFAULT_LAYOUT \<and>
   snd ` set (registers (snd (set_state (demo_ctx False)
     (snd (emu_setup (demo_ctx False) demo_session)) TEARDOWN))) \<subseteq> {0}"
proof -
  let ?C = "demo_ctx False"
  let ?S = "demo_session"
  have 1: "vm ?S = None" and 2: "state ?S = NOT_RUNNING"
    and 3: "sections ?S = MEMORY_MAP_DEFAULT_LAYOUT"
    and 4: "arch_pc ?C \<in> set (map fst (registers ?S))"
    and 6: "state_change_callbacks ?S TEARDOWN = Some []"
    and 7: "state_change_callbacks ?S NOT_RUNNING = Some [0]"
    by (simp_all add: demo_session_def demo_ctx_def)
  have 5: "\<forall>v a s. \<exists>v'. mem_unmap ?C v a s = Inr v'"
    by (simp add: demo_ctx_def)
  from setup_then_teardown [OF 1 2 3 4 5 6 7] obtain st2 st3 where
    "teardown ?C (snd (emu_setup ?C ?S)) = (Inr (), st2)" "vm st2 = None"
    "state st2 = NOT_RUNNING" "sections st2 = MEMORY_MAP_DEFAULT_LAYOUT"
    "set_state ?C (snd (emu_setup ?C ?S)) TEARDOWN = (Inr (), st3)" "vm st3 = None"
    "state st3 = NOT_RUNNING" "sections st3 = MEMORY_MAP_DEFAULT_LAYOUT"
    "snd ` set (registers st3) \<subseteq> {0}"
    by blast
  with 1 2 3 show ?thesis by simp
qed

subsection \<open>C4: the provisional start address\<close>

text \<open>
  Claim C4 says that the populate-memory step of setup records as provisional
  \<open>start_addr\<close> the lowest address among all sections, and not merely the address of
  the first section in list order. The code takes \<^verbatim>\<open>self.sections[0].address\<close>: on the
  default layout in reverse order the step records \<open>0x6000\<close> while the lowest section
  sits at \<open>0x4000\<close>.
\<close>

theorem populate_memory_start_addr_not_lowest:
  "fst (populate_memory (demo_ctx False)
          (demo_session\<lparr>vm := Some [], sections := rev MEMORY_MAP_DEFAULT_LAYOUT\<rparr>)) = Inr True \<and>
   start_addr (snd (populate_memory (demo_ctx False)
          (demo_session\<lparr>vm := Some [], sections := rev MEMORY_MAP_DEFAULT_LAYOUT\<rparr>))) = 0x6000 \<and>
   sec_address (last (rev MEMORY_MAP_DEFAULT_LAYOUT)) = 0x4000"
  by (simp add: populate_memory_def vm_call_def demo_defs)

text \<open>
  C4 as amended: whenever the populate-memory step succeeds, the section list is not
  empty and the provisional \<open>start_addr\<close> is the address of the first section in list
  order.
\<close>

theorem populate_memory_start_addr_is_first_section:
  "populate_memory ctx st = (Inr True, st') \<Longrightarrow>
   sections st \<noteq> [] \<and> start_addr st' = sec_address (hd (sections st))"
proof -
  assume a: "populate_memory ctx st = (Inr True, st')"
  then have ne: "sections st \<noteq> []" and v: "vm st \<noteq> None"
    by (auto simp: populate_memory_def split: if_splits)
  with a obtain u st1 where m: "map_sections ctx (sections st) st = (Inr u, st1)"
    and e: "st' = st1\<lparr>start_addr := sec_address (hd (sections st1)), end_addr := Some (- 1)\<rparr>"
    by (auto simp: populate_memory_def elim!: bindE_cases)
  from map_sections_same_config [of st ctx "sections st"] m
  have "sections st1 = sections st" by (simp add: same_config_def)
  with ne e show ?thesis by simp
qed

theorem populate_memory_start_addr_is_first_section_witness:
  "fst (populate_memory (demo_ctx False) (demo_session\<lparr>vm := Some []\<rparr>)) = Inr True \<and>
   sections (demo_session\<lparr>vm := Some []\<rparr>) \<noteq> [] \<and>
   start_addr (snd (populate_memory (demo_ctx False) (demo_session\<lparr>vm := Some []\<rparr>))) =
     sec_address (hd (sections (demo_session\<lparr>vm := Some []\<rparr>)))"
proof -
  have f: "fst (populate_memory (demo_ctx False) (demo_session\<lparr>vm := Some []\<rparr>)) = Inr True"
    by (simp add: populate_memory_def vm_call_def demo_defs)
  then have h: "populate_memory (demo_ctx False) (demo_session\<lparr>vm := Some []\<rparr>) =
      (Inr True, snd (populate_memory (demo_ctx False) (demo_session\<lparr>vm := Some []\<rparr>)))"
    by (simp add: prod_eq_iff)
  from populate_memory_start_addr_is_first_section [OF h] f show ?thesis by simp
qed

subsection \<open>C5: reading the register cache\<close>

text \<open>
  Claim C5: for a register name that is a key of the cache, \<^verbatim>\<open>get(name)\<close> in state
  Running, Idle or Finished pulls the value from the live engine (one register read,
  recorded in the trace), stores it in the cache and returns the stored value; in any
  other state it returns the last stored value and leaves the session, hence the trace
  of engine calls, exactly as it was. (Where no engine exists there is nothing to pull
  from: the last stored value is returned, whatever the state.)
\<close>

theorem registers_getitem_refresh:
  assumes "map_of (registers st) key = Some old"
  shows "(state st \<in> {RUNNING, IDLE, FINISHED} \<and> vm st = Some v \<and> reg_read ctx v key = Inr x \<longrightarrow>
           registers_getitem ctx st key =
             (Inr x, st\<lparr>trace := trace st @ [EvRegRead key],
                        registers := AList.update key x (registers st)\<rparr>) \<and>
           map_of (AList.update key x (registers st)) key = Some x) \<and>
         (state st \<notin> {RUNNING, IDLE, FINISHED} \<longrightarrow>
           registers_getitem ctx st key = (Inr old, st)) \<and>
         (vm st = None \<longrightarrow> registers_getitem ctx st key = (Inr old, st))"
  using registers_getitem_live [OF map_of_key [OF assms], of v ctx x]
    registers_getitem_cached [OF assms, of ctx] registers_getitem_no_engine [OF assms, of ctx]
  by (simp add: update_conv')

theorem registers_getitem_refresh_witness:
  "map_of (registers demo_session) ''PC'' = Some 0 \<and>
   registers_getitem (demo_ctx False)
     (demo_session\<lparr>state := IDLE, vm := Some [(''PC'', 5)]\<rparr>) ''PC'' =
     (Inr 5, demo_session\<lparr>state := IDLE, vm := Some [(''PC'', 5)],
               trace := [EvRegRead ''PC''],
               registers := [(''A'', 0), (''PC'', 5), (''SP'', 0)]\<rparr>) \<and>
   registers_getitem (demo_ctx False) demo_session ''PC'' = (Inr 0, demo_session) \<and>
   registers_getitem (demo_ctx False) (demo_session\<lparr>state := FINISHED\<rparr>) ''PC'' =
     (Inr 0, demo_session\<lparr>state := FINISHED\<rparr>)"
proof -
  have k: "map_of (registers demo_session) ''PC'' = Some 0"
    by (simp add: demo_defs)
  have k': "map_of (registers (demo_session\<lparr>state := IDLE, vm := Some [(''PC'', 5)]\<rparr>)) ''PC'' =
      Some 0"
    by (simp add: demo_defs)
  have r: "reg_read (demo_ctx False) [(''PC'', 5)] ''PC'' = Inr 5"
    by (simp add: demo_defs)
  have k'': "map_of (registers (demo_session\<lparr>state := FINISHED\<rparr>)) ''PC'' = Some 0"
    by (simp add: demo_defs)
  have n: "vm (demo_session\<lparr>state := FINISHED\<rparr>) = None"
    by (simp add: demo_defs)
  have a: "registers_getitem (demo_ctx False)
      (demo_session\<lparr>state := IDLE, vm := Some [(''PC'', 5)]\<rparr>) ''PC'' =
      (Inr 5, demo_session\<lparr>state := IDLE, vm := Some [(''PC'', 5)],
               trace := [EvRegRead ''PC''],
               registers := [(''A'', 0), (''PC'', 5), (''SP'', 0)]\<rparr>)"
    using registers_getitem_refresh [OF k', of "[(''PC'', 5)]" "demo_ctx False" 5] r
    by (simp add: demo_defs)
  have b: "registers_getitem (demo_ctx False) demo_session ''PC'' = (Inr 0, demo_session)"
    using registers_getitem_refresh [OF k, of "[]" "demo_ctx False" 0]
    by (simp add: demo_defs)
  have c: "registers_getitem (demo_ctx False) (demo_session\<lparr>state := FINISHED\<rparr>) ''PC'' =
      (Inr 0, demo_session\<lparr>state := FINISHED\<rparr>)"
    using registers_getitem_refresh [OF k'', of "[]" "demo_ctx False" 0] n by blast
  show ?thesis by (intro conjI k a b c)
qed

subsection \<open>C6: writing the register cache\<close>

text \<open>
  Claim C6 says that \<^verbatim>\<open>set(name, value)\<close> fails with \<^verbatim>\<open>UnknownRegister\<close> for a name
  outside the architecture's register set. The cache is a \<^verbatim>\<open>UserDict\<close> whose
  \<^verbatim>\<open>__setitem__\<close> is not overridden and the source has no such error: the value is
  stored under a new key.
\<close>

theorem registers_setitem_unknown_name_stored:
  "''XMM9'' \<notin> set (arch_registers (demo_ctx False)) \<and>
   registers_setitem demo_session ''XMM9'' 7 =
     (Inr (), demo_session\<lparr>registers := registers demo_session @ [(''XMM9'', 7)]\<rparr>)"
  by (simp add: registers_setitem_def demo_defs)

text \<open>
  C6 as amended: for every name and value, \<^verbatim>\<open>set(name, value)\<close> returns normally and
  stores the value under the name; a name that is not yet a key is added as the last
  key, and the other keys stay.
\<close>

theorem registers_setitem_always_stores:
  "fst (registers_setitem st name val) = Inr () \<and>
   map_of (registers (snd (registers_setitem st name val))) name = Some val \<and>
   map fst (registers (snd (registers_setitem st name val))) =
     (if name \<in> set (map fst (registers st)) then map fst (registers st)
      else map fst (registers st) @ [name])"
  by (simp add: registers_setitem_def update_conv' update_keys)

subsection \<open>C7: the outcome of a run that returns\<close>

text \<open>
  Claim C7: when the engine's blocking run primitive returns successfully, the execution
  driver moves the session to Finished if the program counter then equals
  \<open>start_addr + length (compiled bytes)\<close>, and to Idle otherwise. The driver is entered
  with an engine and in state Running or Idle, its window \<open>[start_address, end_address)\<close>
  is the one \<open>run_window\<close> computes (in either mode), the program counter is a key of
  the cache, the engine answers register reads after the run, and the two target states
  have an entry in the callback dictionary (as \<^verbatim>\<open>__init__\<close> creates them). The driver
  then returns normally, and the final state is decided by the program counter read
  from the engine after the run.
\<close>

theorem run_success_finished_or_idle:
  assumes "vm emu = Some v" "is_running emu"
    "arch_pc ctx \<in> set (map fst (registers emu))"
    "run_window ctx emu = (Inr (Some (start_address, end_address)), emu1)"
    "emu_start ctx v start_address end_address = (Inr (), v')"
    "\<forall>k. \<exists>x. reg_read ctx v' k = Inr x"
    "state_change_callbacks emu FINISHED = Some cbs_finished"
    "state_change_callbacks emu IDLE = Some cbs_idle"
  shows "\<exists>p emu'. reg_read ctx v' (arch_pc ctx) = Inr p \<and> run ctx emu = (Inr (), emu') \<and>
           state emu' = (if p = start_addr emu + int (length (code emu)) then FINISHED else IDLE)"
proof -
  have ro: "reads_only emu emu1"
    using run_window_reads_only [of emu ctx] assms(4) by simp
  define emu2 where
    "emu2 = emu1\<lparr>vm := Some v', trace := trace emu1 @ [EvEmuStart start_address end_address]\<rparr>"
  have st: "vm_emu_start ctx start_address end_address emu1 = (Inr (), emu2)"
    unfolding emu2_def using ro assms(1,5) by (intro vm_emu_start_eq) (simp_all add: reads_only_def)
  from assms(6) obtain p where p: "reg_read ctx v' (arch_pc ctx) = Inr p" by blast
  define emu3 where
    "emu3 = emu2\<lparr>trace := trace emu2 @ [EvRegRead (arch_pc ctx)],
                 registers := AList.update (arch_pc ctx) p (registers emu2)\<rparr>"
  have pc: "pc ctx emu2 = (Inr p, emu3)"
    unfolding emu3_def
    using ro assms(2,3) p
    by (intro pc_live [where v = v']) (auto simp: emu2_def reads_only_def is_running_def)
  have f: "vm emu3 = Some v'" "start_addr emu3 = start_addr emu" "code emu3 = code emu"
    "state_change_callbacks emu3 = state_change_callbacks emu"
    using ro by (simp_all add: emu3_def emu2_def reads_only_def)
  let ?new = "if p = start_addr emu + int (length (code emu)) then FINISHED else IDLE"
  have "\<exists>cbs. state_change_callbacks emu3 ?new = Some cbs"
    using f(4) assms(7,8) by simp
  then obtain cbs where cbs: "state_change_callbacks emu3 ?new = Some cbs" by blast
  have new: "?new = FINISHED \<or> ?new = IDLE" by simp
  from set_state_leaf [OF f(1) assms(6) new cbs]
  obtain emu' where s: "set_state ctx emu3 ?new = (Inr (), emu')" "state emu' = ?new"
    by blast
  have "run ctx emu = (Inr (), emu')"
    using assms(1,2,4) st pc f(2,3) s(1) by (auto simp: run.simps split: if_splits)
  with p s(2) show ?thesis by blast
qed

theorem run_success_finished_or_idle_witness:
  "fst (run (demo_ctx False) armed_session) = Inr () \<and>
   state (snd (run (demo_ctx False) armed_session)) = FINISHED \<and>
   fst (run (demo_ctx False) (armed_session\<lparr>use_step_mode := True\<rparr>)) = Inr () \<and>
   state (snd (run (demo_ctx False) (armed_session\<lparr>use_step_mode := True\<rparr>))) = IDLE"
proof -
  let ?C = "demo_ctx False"
  let ?V = "[(''A'', 0), (''PC'', 0x4000), (''SP'', 0x8000)] :: (string \<times> int) list"
  have reads: "\<forall>k. \<exists>x. reg_read ?C v k = Inr x" for v
    by (simp add: demo_ctx_def)
  have free: "fst (run ?C armed_session) = Inr () \<and> state (snd (run ?C armed_session)) = FINISHED"
  proof -
    let ?S = "armed_session"
    let ?V' = "[(''A'', 0), (''PC'', 0x4002), (''SP'', 0x8000)] :: (string \<times> int) list"
    have 1: "vm ?S = Some ?V" by (simp add: armed_session_def)
    have 2: "is_running ?S" by (simp add: armed_session_def is_running_def)
    have 3: "arch_pc ?C \<in> set (map fst (registers ?S))"
      by (simp add: armed_session_def demo_ctx_def)
    have "fst (run_window ?C ?S) = Inr (Some (0x4000, 0x4002))"
      by (simp add: run_defs armed_session_def demo_ctx_def)
    then have 4: "run_window ?C ?S = (Inr (Some (0x4000, 0x4002)), snd (run_window ?C ?S))"
      by (simp add: prod_eq_iff)
    have 5: "emu_start ?C ?V 0x4000 0x4002 = (Inr (), ?V')"
      by (simp add: demo_ctx_def)
    have 7: "state_change_callbacks ?S FINISHED = Some [3]"
      and 8: "state_change_callbacks ?S IDLE = Some [2]"
      by (simp_all add: armed_session_def)
    from run_success_finished_or_idle [OF 1 2 3 4 5 reads 7 8]
    obtain p emu' where p: "reg_read ?C ?V' (arch_pc ?C) = Inr p"
      and r: "run ?C ?S = (Inr (), emu')"
      and s: "state emu' = (if p = start_addr ?S + int (length (code ?S)) then FINISHED else IDLE)"
      by blast
    from p have "p = 0x4002" by (simp add: demo_ctx_def)
    with s have "state emu' = FINISHED" by (simp add: armed_session_def)
    with r show ?thesis by simp
  qed
  have step: "fst (run ?C (armed_session\<lparr>use_step_mode := True\<rparr>)) = Inr () \<and>
      state (snd (run ?C (armed_session\<lparr>use_step_mode := True\<rparr>))) = IDLE"
  proof -
    let ?S = "armed_session\<lparr>use_step_mode := True\<rparr>"
    let ?V' = "[(''A'', 0), (''PC'', 0x4001), (''SP'', 0x8000)] :: (string \<times> int) list"
    have 1: "vm ?S = Some ?V" by (simp add: armed_session_def)
    have 2: "is_running ?S" by (simp add: armed_session_def is_running_def)
    have 3: "arch_pc ?C \<in> set (map fst (registers ?S))"
      by (simp add: armed_session_def demo_ctx_def)
    have "fst (run_window ?C ?S) = Inr (Some (0x4000, 0x4001))"
      by (simp add: run_defs armed_session_def demo_ctx_def)
    then have 4: "run_window ?C ?S = (Inr (Some (0x4000, 0x4001)), snd (run_window ?C ?S))"
      by (simp add: prod_eq_iff)
    have 5: "emu_start ?C ?V 0x4000 0x4001 = (Inr (), ?V')"
      by (simp add: demo_ctx_def)
    have 7: "state_change_callbacks ?S FINISHED = Some [3]"
      and 8: "state_change_callbacks ?S IDLE = Some [2]"
      by (simp_all add: armed_session_def)
    from run_success_finished_or_idle [OF 1 2 3 4 5 reads 7 8]
    obtain p emu' where p: "reg_read ?C ?V' (arch_pc ?C) = Inr p"
      and r: "run ?C ?S = (Inr (), emu')"
      and s: "state emu' = (if p = start_addr ?S + int (length (code ?S)) then FINISHED else IDLE)"
      by blast
    from p have "p = 0x4001" by (simp add: demo_ctx_def)
    with s have "state emu' = IDLE" by (simp add: armed_session_def)
    with r show ?thesis by simp
  qed
  from free step show ?thesis by blast
qed

subsection \<open>C8: an engine fault during a run\<close>

text \<open>
  Claim C8: when the engine's run primitive raises \<^verbatim>\<open>UcError\<close>, the driver shows a popup
  with the fault, the program counter and the stack pointer as the engine has them after
  the fault, and then forces the session to Finished. Nothing is assumed about
  \<open>use_step_mode\<close>: the window is whatever \<open>run_window\<close> computed, in step or free-run
  mode.
\<close>

theorem run_fault_forces_finished:
  assumes "vm emu = Some v" "is_running emu"
    "arch_pc ctx \<in> set (map fst (registers emu))"
    "arch_sp ctx \<in> set (map fst (registers emu))"
    "run_window ctx emu = (Inr (Some (start_address, end_address)), emu1)"
    "emu_start ctx v start_address end_address = (Inl (UcError c), v')"
    "\<forall>k. \<exists>x. reg_read ctx v' k = Inr x"
    "state_change_callbacks emu FINISHED = Some cbs"
  shows "\<exists>p q emu'. reg_read ctx v' (arch_pc ctx) = Inr p \<and>
           reg_read ctx v' (arch_sp ctx) = Inr q \<and>
           run ctx emu = (Inr (), emu') \<and> state emu' = FINISHED \<and>
           EvPopup (RunError (UcError c) p q) \<in> set (trace emu')"
proof -
  have ro: "reads_only emu emu1"
    using run_window_reads_only [of emu ctx] assms(5) by simp
  define emu2 where
    "emu2 = emu1\<lparr>vm := Some v', trace := trace emu1 @ [EvEmuStart start_address end_address]\<rparr>"
  have st: "vm_emu_start ctx start_address end_address emu1 = (Inl (UcError c), emu2)"
    unfolding emu2_def using ro assms(1,6) by (intro vm_emu_start_eq) (simp_all add: reads_only_def)
  from assms(7) obtain p q where p: "reg_read ctx v' (arch_pc ctx) = Inr p"
    and q: "reg_read ctx v' (arch_sp ctx) = Inr q" by blast
  define emu3 where
    "emu3 = emu2\<lparr>trace := trace emu2 @ [EvRegRead (arch_pc ctx)],
                 registers := AList.update (arch_pc ctx) p (registers emu2)\<rparr>"
  have pc: "pc ctx emu2 = (Inr p, emu3)"
    unfolding emu3_def
    using ro assms(2,3) p
    by (intro pc_live [where v = v']) (auto simp: emu2_def reads_only_def is_running_def)
  define emu4 where
    "emu4 = emu3\<lparr>trace := trace emu3 @ [EvRegRead (arch_sp ctx)],
                 registers := AList.update (arch_sp ctx) q (registers emu3)\<rparr>"
  have sp: "sp ctx emu3 = (Inr q, emu4)"
    unfolding emu4_def
    using ro assms(2,4) q
    by (intro sp_live [where v = v'])
      (auto simp: emu3_def emu2_def reads_only_def is_running_def update_keys)
  define emu5 where
    "emu5 = emu4\<lparr>trace := trace emu4 @ [EvPopup (RunError (UcError c) p q)]\<rparr>"
  have f: "vm emu5 = Some v'" "state_change_callbacks emu5 FINISHED = Some cbs"
    using ro assms(8) by (simp_all add: emu5_def emu4_def emu3_def emu2_def reads_only_def)
  have new: "FINISHED = FINISHED \<or> FINISHED = IDLE" by simp
  from set_state_leaf [OF f(1) assms(7) new f(2)]
  obtain emu' where s: "set_state ctx emu5 FINISHED = (Inr (), emu')" "state emu' = FINISHED"
    "set (trace emu5) \<subseteq> set (trace emu')"
    by blast
  have "run ctx emu = (Inr (), emu')"
    using assms(1,2,5) st pc sp s(1) by (simp add: run.simps emu5_def)
  moreover have "EvPopup (RunError (UcError c) p q) \<in> set (trace emu')"
    using s(3) by (auto simp: emu5_def)
  ultimately show ?thesis using p q s(2) by blast
qed

theorem run_fault_forces_finished_witness:
  "fst (run (demo_ctx True) armed_session) = Inr () \<and>
   state (snd (run (demo_ctx True) armed_session)) = FINISHED \<and>
   EvPopup (RunError (UcError 6) 0x4000 0x8000) \<in> set (trace (snd (run (demo_ctx True) armed_session))) \<and>
   fst (run (demo_ctx True) (armed_session\<lparr>use_step_mode := True\<rparr>)) = Inr () \<and>
   state (snd (run (demo_ctx True) (armed_session\<lparr>use_step_mode := True\<rparr>))) = FINISHED \<and>
   EvPopup (RunError (UcError 6) 0x4000 0x8000)
     \<in> set (trace (snd (run (demo_ctx True) (armed_session\<lparr>use_step_mode := True\<rparr>))))"
proof -
  let ?C = "demo_ctx True"
  let ?V = "[(''A'', 0), (''PC'', 0x4000), (''SP'', 0x8000)] :: (string \<times> int) list"
  have reads: "\<forall>k. \<exists>x. reg_read ?C v k = Inr x" for v
    by (simp add: demo_ctx_def)
  have rp: "reg_read ?C ?V (arch_pc ?C) = Inr p \<Longrightarrow> p = 0x4000" for p
    by (simp add: demo_ctx_def)
  have rq: "reg_read ?C ?V (arch_sp ?C) = Inr q \<Longrightarrow> q = 0x8000" for q
    by (simp add: demo_ctx_def)
  have free: "fst (run ?C armed_session) = Inr () \<and>
      state (snd (run ?C armed_session)) = FINISHED \<and>
      EvPopup (RunError (UcError 6) 0x4000 0x8000) \<in> set (trace (snd (run ?C armed_session)))"
  proof -
    let ?S = "armed_session"
    have 1: "vm ?S = Some ?V" by (simp add: armed_session_def)
    have 2: "is_running ?S" by (simp add: armed_session_def is_running_def)
    have 3: "arch_pc ?C \<in> set (map fst (registers ?S))"
      and 9: "arch_sp ?C \<in> set (map fst (registers ?S))"
      by (simp_all add: armed_session_def demo_ctx_def)
    have "fst (run_window ?C ?S) = Inr (Some (0x4000, 0x4002))"
      by (simp add: run_defs armed_session_def demo_ctx_def)
    then have 4: "run_window ?C ?S = (Inr (Some (0x4000, 0x4002)), snd (run_window ?C ?S))"
      by (simp add: prod_eq_iff)
    have 5: "emu_start ?C ?V 0x4000 0x4002 = (Inl (UcError 6), ?V)"
      by (simp add: demo_ctx_def)
    have 7: "state_change_callbacks ?S FINISHED = Some [3]"
      by (simp add: armed_session_def)
    from run_fault_forces_finished [OF 1 2 3 9 4 5 reads 7]
    obtain p q emu' where "reg_read ?C ?V (arch_pc ?C) = Inr p"
      "reg_read ?C ?V (arch_sp ?C) = Inr q" "run ?C ?S = (Inr (), emu')"
      "state emu' = FINISHED" "EvPopup (RunError (UcError 6) p q) \<in> set (trace emu')"
      by blast
    with rp rq show ?thesis by simp
  qed
  have step: "fst (run ?C (armed_session\<lparr>use_step_mode := True\<rparr>)) = Inr () \<and>
      state (snd (run ?C (armed_session\<lparr>use_step_mode := True\<rparr>))) = FINISHED \<and>
      EvPopup (RunError (UcError 6) 0x4000 0x8000)
        \<in> set (trace (snd (run ?C (armed_session\<lparr>use_step_mode := True\<rparr>))))"
  proof -
    let ?S = "armed_session\<lparr>use_step_mode := True\<rparr>"
    have 1: "vm ?S = Some ?V" by (simp add: armed_session_def)
    have 2: "is_running ?S" by (simp add: armed_session_def is_running_def)
    have 3: "arch_pc ?C \<in> set (map fst (registers ?S))"
      and 9: "arch_sp ?C \<in> set (map fst (registers ?S))"
      by (simp_all add: armed_session_def demo_ctx_def)
    have "fst (run_window ?C ?S) = Inr (Some (0x4000, 0x4001))"
      by (simp add: run_defs armed_session_def demo_ctx_def)
    then have 4: "run_window ?C ?S = (Inr (Some (0x4000, 0x4001)), snd (run_window ?C ?S))"
      by (simp add: prod_eq_iff)
    have 5: "emu_start ?C ?V 0x4000 0x4001 = (Inl (UcError 6), ?V)"
      by (simp add: demo_ctx_def)
    have 7: "state_change_callbacks ?S FINISHED = Some [3]"
      by (simp add: armed_session_def)
    from run_fault_forces_finished [OF 1 2 3 9 4 5 reads 7]
    obtain p q emu' where "reg_read ?C ?V (arch_pc ?C) = Inr p"
      "reg_read ?C ?V (arch_sp ?C) = Inr q" "run ?C ?S = (Inr (), emu')"
      "state emu' = FINISHED" "EvPopup (RunError (UcError 6) p q) \<in> set (trace emu')"
      by blast
    with rp rq show ?thesis by simp
  qed
  from free step show ?thesis by blast
qed

subsection \<open>C9: setup is idempotent\<close>

text \<open>
  Claim C9: on a session that already has an engine, setup returns at once and changes
  no field. So a second call right after a first one is a no-op whatever the first one
  did, and when the first call (on a session without engine) succeeded, the memory maps
  recorded after both calls are exactly one per section, in list order.
\<close>

theorem emu_setup_idempotent:
  "(vm st \<noteq> None \<longrightarrow> emu_setup ctx st = (Inr (), st)) \<and>
   emu_setup ctx (snd (emu_setup ctx st)) = (Inr (), snd (emu_setup ctx st)) \<and>
   (vm st = None \<and> fst (emu_setup ctx st) = Inr () \<longrightarrow>
      filter is_mem_map (trace (snd (emu_setup ctx (snd (emu_setup ctx st))))) =
      filter is_mem_map (trace st) @
      map (\<lambda>s. EvMemMap (sec_address s) (sec_size s) (sec_permission s)) (sections st))"
proof -
  have a: "emu_setup ctx (snd (emu_setup ctx st)) = (Inr (), snd (emu_setup ctx st))"
    using emu_setup_keeps [of ctx st] by (simp add: emu_setup_noop)
  have b: "filter is_mem_map (trace (snd (emu_setup ctx st))) =
      filter is_mem_map (trace st) @
      map (\<lambda>s. EvMemMap (sec_address s) (sec_size s) (sec_permission s)) (sections st)"
    if "vm st = None" "fst (emu_setup ctx st) = Inr ()"
    using emu_setup_trace [OF that(1), of ctx "snd (emu_setup ctx st)"] that(2)
    by (simp add: prod_eq_iff)
  from a b show ?thesis by (simp add: emu_setup_noop)
qed

theorem emu_setup_idempotent_witness:
  "vm (demo_session\<lparr>vm := Some []\<rparr>) \<noteq> None \<and>
   emu_setup (demo_ctx False) (demo_session\<lparr>vm := Some []\<rparr>) =
     (Inr (), demo_session\<lparr>vm := Some []\<rparr>) \<and>
   vm demo_session = None \<and> fst (emu_setup (demo_ctx False) demo_session) = Inr () \<and>
   filter is_mem_map
     (trace (snd (emu_setup (demo_ctx False) (snd (emu_setup (demo_ctx False) demo_session))))) =
   [EvMemMap 0x4000 0x1000 [READ, EXEC], EvMemMap 0x5000 0x1000 [READ, WRITE],
    EvMemMap 0x6000 0x4000 [READ, WRITE]]"
proof -
  have a: "vm (demo_session\<lparr>vm := Some []\<rparr>) \<noteq> None" by simp
  have b: "vm demo_session = None" by (simp add: demo_session_def)
  have c: "fst (emu_setup (demo_ctx False) demo_session) = Inr ()"
    by (simp add: setup_defs demo_defs)
  have w1: "emu_setup (demo_ctx False) (demo_session\<lparr>vm := Some []\<rparr>) =
      (Inr (), demo_session\<lparr>vm := Some []\<rparr>)"
    using emu_setup_idempotent [of "demo_session\<lparr>vm := Some []\<rparr>" "demo_ctx False"] a by blast
  have w2: "filter is_mem_map
      (trace (snd (emu_setup (demo_ctx False) (snd (emu_setup (demo_ctx False) demo_session))))) =
      filter is_mem_map (trace demo_session) @
      map (\<lambda>s. EvMemMap (sec_address s) (sec_size s) (sec_permission s)) (sections demo_session)"
    using emu_setup_idempotent [of demo_session "demo_ctx False"] b c by blast
  have w3: "filter is_mem_map (trace demo_session) @
      map (\<lambda>s. EvMemMap (sec_address s) (sec_size s) (sec_permission s)) (sections demo_session) =
      [EvMemMap 0x4000 0x1000 [READ, EXEC], EvMemMap 0x5000 0x1000 [READ, WRITE],
       EvMemMap 0x6000 0x4000 [READ, WRITE]]"
    by (simp add: demo_session_def MEMORY_MAP_DEFAULT_LAYOUT_def)
  show ?thesis
    by (intro conjI a b c w1 w2 [unfolded w3])
qed

subsection \<open>C10: memory access through the session\<close>

text \<open>
  Claim C10: \<^verbatim>\<open>Emulator.read\<close> and \<^verbatim>\<open>Emulator.write\<close> return \<^verbatim>\<open>None\<close> and leave the
  session (and so the engine) untouched unless an engine exists and the state is Running
  or Idle; in particular they return \<^verbatim>\<open>None\<close> in state Finished, with or without an
  engine; and when the guard passes and the engine accepts the write, \<^verbatim>\<open>write\<close>
  returns the length of the data.
\<close>

theorem read_write_guard:
  "(vm st = None \<or> \<not> is_running st \<longrightarrow>
      emu_read ctx st address sz = (Inr None, st) \<and>
      emu_write ctx st address bs = (Inr None, st)) \<and>
   (state st = FINISHED \<longrightarrow>
      emu_read ctx st address sz = (Inr None, st) \<and>
      emu_write ctx st address bs = (Inr None, st)) \<and>
   (vm st = Some v \<and> is_running st \<and> mem_write ctx v address bs = Inr v' \<longrightarrow>
      emu_write ctx st address bs =
        (Inr (Some (int (length bs))),
         st\<lparr>vm := Some v', trace := trace st @ [EvMemWrite address bs]\<rparr>))"
  by (auto simp: emu_read_def emu_write_def is_running_def vm_call_def)

theorem read_write_guard_witness:
  "emu_read (demo_ctx False) demo_session 0x4000 4 = (Inr None, demo_session) \<and>
   emu_write (demo_ctx False) demo_session 0x4000 [1, 2] = (Inr None, demo_session) \<and>
   emu_read (demo_ctx False) (demo_session\<lparr>state := FINISHED, vm := Some []\<rparr>) 0x4000 4 =
     (Inr None, demo_session\<lparr>state := FINISHED, vm := Some []\<rparr>) \<and>
   emu_write (demo_ctx False) (demo_session\<lparr>state := FINISHED, vm := Some []\<rparr>) 0x4000 [1, 2] =
     (Inr None, demo_session\<lparr>state := FINISHED, vm := Some []\<rparr>) \<and>
   fst (emu_write (demo_ctx False) (demo_session\<lparr>state := IDLE, vm := Some []\<rparr>) 0x4000 [1, 2]) =
     Inr (Some 2)"
proof -
  have a: "vm demo_session = None" by (simp add: demo_defs)
  have b: "state (demo_session\<lparr>state := FINISHED, vm := Some []\<rparr>) = FINISHED" by simp
  have c: "vm (demo_session\<lparr>state := IDLE, vm := Some []\<rparr>) = Some [] \<and>
           is_running (demo_session\<lparr>state := IDLE, vm := Some []\<rparr>) \<and>
           mem_write (demo_ctx False) [] 0x4000 [1, 2] = Inr []"
    by (simp add: is_running_def demo_defs)
  from read_write_guard [of demo_session "demo_ctx False" "0x4000" 4 "[1, 2]"] a
    read_write_guard [of "demo_session\<lparr>state := FINISHED, vm := Some []\<rparr>" "demo_ctx False"
      "0x4000" 4 "[1, 2]"] b
    read_write_guard [of "demo_session\<lparr>state := IDLE, vm := Some []\<rparr>" "demo_ctx False"
      "0x4000" 4 "[1, 2]" "[]" "[]"] c
  show ?thesis by simp
qed

end
